theory Spec2Isabelle
  imports Complex_Main "HOL-Library.Multiset" "HOL-Library.Product_Lexorder"
begin

section \<open>The trace database\<close>

text \<open>
  The scripts read four tables of the exported Nsight Systems database. A table is a
  list of rows; every column read by the scripts is a 64-bit integer of the export and
  is an unbounded Python \<open>int\<close> once loaded, hence \<open>int\<close> here. The columns are taken
  as present (not NULL), as the scripts take them: they subtract and compare them
  without a check.

  A Python float is a binary64 value, which is a rational. The \<open>/ 1e6\<close> and
  \<open>/ 1e9\<close> quotients, the sums and the means of the reports are modelled by their
  exact rational results; the rounding of the operation and the \<open>:.4f\<close> formatting of
  the CSV writers are left out there. Where a float decides an integer, in the bin index
  of \<open>bin_events\<close>, the quotient is rounded to binary64 as the hardware rounds it.
\<close>

record kernel_row =
  k_start :: int
  k_end :: int
  k_deviceId :: int
  k_streamId :: int
  k_demangledName :: int

record memcpy_row =
  m_start :: int
  m_end :: int
  m_bytes :: int
  m_copyKind :: int
  m_srcKind :: int
  m_dstKind :: int
  m_deviceId :: int
  m_streamId :: int
  m_correlationId :: int

record runtime_row =
  r_start :: int
  r_end :: int
  r_correlationId :: int
  r_nameId :: int

record string_row =
  s_id :: int
  s_value :: string

record trace_db =
  kernel_tab :: "kernel_row list"
  memcpy_tab :: "memcpy_row list"
  runtime_tab :: "runtime_row list"
  string_tab :: "string_row list"

datatype error = TypeError | IntCastingNaNError

text \<open>\<open>COPY_KIND.get(k, "?")\<close> and \<open>MEM_KIND.get(k, "?")\<close> of \<open>analyze_memcpy.py\<close>.\<close>

definition COPY_KIND :: "int \<Rightarrow> string" where
  "COPY_KIND k =
     (if k = 0 then ''Unknown'' else if k = 1 then ''HtoD'' else if k = 2 then ''DtoH''
      else if k = 3 then ''HtoH'' else if k = 4 then ''DtoD'' else if k = 8 then ''Peer''
      else ''?'')"

definition MEM_KIND :: "int \<Rightarrow> string" where
  "MEM_KIND k =
     (if k = 0 then ''Unknown'' else if k = 1 then ''Pageable'' else if k = 2 then ''Device''
      else if k = 3 then ''Array'' else if k = 4 then ''Unified'' else if k = 5 then ''Managed''
      else ''?'')"

section \<open>The trace origin\<close>

text \<open>\<open>SELECT MIN(start) FROM t\<close>: NULL (\<open>None\<close>) on an empty table.\<close>

definition sql_min :: "int list \<Rightarrow> int option" where
  "sql_min xs = (case xs of [] \<Rightarrow> None | x # ys \<Rightarrow> Some (fold min ys x))"

text \<open>
  \<open>analyze\<close> (lines 66-68), \<open>dump_window_csv.main\<close> (lines 85-87) and
  \<open>plot_nsys_trace.load_events\<close> (lines 87-89): the minimum kernel start, and the
  minimum memcpy start only when the kernel table is empty.
\<close>

definition trace_origin :: "trace_db \<Rightarrow> int option" where
  "trace_origin d =
     (case sql_min (map k_start (kernel_tab d)) of
        None \<Rightarrow> sql_min (map m_start (memcpy_tab d))
      | Some t0 \<Rightarrow> Some t0)"


text \<open>
  \<open>t0 + int(ms * 1e6)\<close>: the offset \<open>int(ms * 1e6)\<close> is passed in as the integer it
  is; adding it to a NULL origin raises \<open>TypeError\<close>.
\<close>

definition window_bound :: "int option \<Rightarrow> int \<Rightarrow> error + int" where
  "window_bound t0 off = (case t0 of None \<Rightarrow> Inl TypeError | Some t \<Rightarrow> Inr (t + off))"

section \<open>The correlator\<close>

text \<open>One row of \<open>E2E_QUERY\<close> (\<open>analyze_memcpy.py\<close>, lines 25-49).\<close>

record e2e_row =
  cpu_start :: int
  cpu_end :: int
  cpu_wall_ns :: int
  gpu_start :: int
  gpu_end :: int
  gpu_dma_ns :: int
  launch_overhead_ns :: int
  sync_wait_ns :: int
  bytes :: int
  copyKind :: int
  srcKind :: int
  dstKind :: int
  deviceId :: int
  streamId :: int
  correlationId :: int
  api_name :: "string option"

text \<open>
  \<open>LEFT JOIN StringIds AS s ON r.nameId = s.id\<close>: one result per matching string row,
  and one with a NULL name when there is none.
\<close>

definition left_join_name :: "string_row list \<Rightarrow> int \<Rightarrow> string option list" where
  "left_join_name strs nid =
     (case filter (\<lambda>s. s_id s = nid) strs of
        [] \<Rightarrow> [None]
      | ss \<Rightarrow> map (\<lambda>s. Some (s_value s)) ss)"

definition mk_e2e_row :: "memcpy_row \<Rightarrow> runtime_row \<Rightarrow> string option \<Rightarrow> e2e_row" where
  "mk_e2e_row m r n =
     \<lparr> cpu_start = r_start r, cpu_end = r_end r, cpu_wall_ns = r_end r - r_start r,
       gpu_start = m_start m, gpu_end = m_end m, gpu_dma_ns = m_end m - m_start m,
       launch_overhead_ns = m_start m - r_start r, sync_wait_ns = r_end r - m_end m,
       bytes = m_bytes m, copyKind = m_copyKind m, srcKind = m_srcKind m,
       dstKind = m_dstKind m, deviceId = m_deviceId m, streamId = m_streamId m,
       correlationId = m_correlationId m, api_name = n \<rparr>"

text \<open>
  \<open>FROM memcpy AS m JOIN runtime AS r ON m.correlationId = r.correlationId\<close>: the rows
  of one memcpy are those of every runtime call with its correlation id; a memcpy with
  no such call has none. The join is written as the nested loop over the tables.
\<close>

definition join_memcpy :: "trace_db \<Rightarrow> memcpy_row \<Rightarrow> e2e_row list" where
  "join_memcpy d m =
     concat (map (\<lambda>r. map (mk_e2e_row m r) (left_join_name (string_tab d) (r_nameId r)))
       (filter (\<lambda>r. m_correlationId m = r_correlationId r) (runtime_tab d)))"

text \<open>
  The query with its \<open>WHERE\<close> clause, a predicate on the memcpy row, and
  \<open>ORDER BY m.start\<close> (the order of rows with one start is not fixed by SQL; the
  model keeps the join's order there).
\<close>

definition e2e_query :: "trace_db \<Rightarrow> (memcpy_row \<Rightarrow> bool) \<Rightarrow> e2e_row list" where
  "e2e_query d wh = sort_key gpu_start (concat (map (join_memcpy d) (filter wh (memcpy_tab d))))"

text \<open>
  The \<open>WHERE\<close> clause of \<open>analyze\<close> (lines 71-76): each bound is optional, and both
  bind \<open>m.start\<close>.
\<close>

definition analyze_where :: "int option \<Rightarrow> int option \<Rightarrow> int option \<Rightarrow> error + (memcpy_row \<Rightarrow> bool)" where
  "analyze_where t0 start_off end_off =
     (case (case start_off of None \<Rightarrow> Inr None
            | Some s \<Rightarrow> (case window_bound t0 s of Inl e \<Rightarrow> Inl e | Inr lo \<Rightarrow> Inr (Some lo))) of
        Inl e \<Rightarrow> Inl e
      | Inr lo \<Rightarrow>
          (case (case end_off of None \<Rightarrow> Inr None
                 | Some s \<Rightarrow> (case window_bound t0 s of Inl e \<Rightarrow> Inl e | Inr hi \<Rightarrow> Inr (Some hi))) of
             Inl e \<Rightarrow> Inl e
           | Inr hi \<Rightarrow>
               Inr (\<lambda>m. (case lo of None \<Rightarrow> True | Some l \<Rightarrow> l \<le> m_start m)
                      \<and> (case hi of None \<Rightarrow> True | Some h \<Rightarrow> m_start m \<le> h))))"

text \<open>\<open>bytes / (gpu_dma_ns / 1e9) / 1e9 if gpu_dma_ns > 0 and bytes > 0 else 0\<close>.\<close>

definition row_bw :: "int \<Rightarrow> int \<Rightarrow> rat" where
  "row_bw b dma = (if dma > 0 \<and> b > 0 then of_int b / (of_int dma / 10 ^ 9) / 10 ^ 9 else 0)"

text \<open>\<open>max(r["cpu_wall_ns"], r["gpu_end"] - r["cpu_start"])\<close> (lines 104, 134, 187).\<close>

definition e2e_of :: "e2e_row \<Rightarrow> int" where
  "e2e_of r = max (cpu_wall_ns r) (gpu_end r - cpu_start r)"

text \<open>One row of the CSV export of \<open>analyze\<close> (lines 172-197).\<close>

record csv_row =
  c_copy_kind :: string
  c_src_mem :: string
  c_dst_mem :: string
  c_bytes :: int
  c_cpu_start_ns :: int
  c_cpu_end_ns :: int
  c_cpu_wall_ns :: int
  c_gpu_start_ns :: int
  c_gpu_end_ns :: int
  c_gpu_dma_ns :: int
  c_launch_overhead_ns :: int
  c_sync_wait_ns :: int
  c_e2e_ns :: int
  c_dma_bw_gbps :: rat
  c_api_name :: "string option"
  c_stream_id :: int
  c_device_id :: int

definition csv_of :: "e2e_row \<Rightarrow> csv_row" where
  "csv_of r =
     \<lparr> c_copy_kind = COPY_KIND (copyKind r), c_src_mem = MEM_KIND (srcKind r),
       c_dst_mem = MEM_KIND (dstKind r), c_bytes = bytes r,
       c_cpu_start_ns = cpu_start r, c_cpu_end_ns = cpu_end r, c_cpu_wall_ns = cpu_wall_ns r,
       c_gpu_start_ns = gpu_start r, c_gpu_end_ns = gpu_end r, c_gpu_dma_ns = gpu_dma_ns r,
       c_launch_overhead_ns = max 0 (launch_overhead_ns r),
       c_sync_wait_ns = max 0 (sync_wait_ns r),
       c_e2e_ns = e2e_of r, c_dma_bw_gbps = row_bw (bytes r) (gpu_dma_ns r),
       c_api_name = api_name r, c_stream_id = streamId r, c_device_id = deviceId r \<rparr>"


section \<open>The reports of \<open>analyze\<close>\<close>

text \<open>
  A \<open>defaultdict\<close> as an association list in insertion order:
  \<open>dd_update k d f\<close> is \<open>s = stats[k]; s := f s\<close>, where a missing key starts from the
  default \<open>d\<close>.
\<close>

fun dd_update :: "'k \<Rightarrow> 'v \<Rightarrow> ('v \<Rightarrow> 'v) \<Rightarrow> ('k \<times> 'v) list \<Rightarrow> ('k \<times> 'v) list" where
  "dd_update k d f [] = [(k, f d)]"
| "dd_update k d f ((k', v) # kvs) =
     (if k' = k then (k', f v) # kvs else (k', v) # dd_update k d f kvs)"

text \<open>The per-direction accumulator (lines 88-92) and the loop body (lines 94-107).\<close>

record dir_stats =
  st_count :: nat
  st_bytes :: int
  st_cpu_wall :: int
  st_gpu_dma :: int
  st_launch_oh :: int
  st_sync_wait :: int
  st_e2e_list :: "int list"
  st_bw_list :: "rat list"

definition stats0 :: dir_stats where
  "stats0 = \<lparr> st_count = 0, st_bytes = 0, st_cpu_wall = 0, st_gpu_dma = 0,
              st_launch_oh = 0, st_sync_wait = 0, st_e2e_list = [], st_bw_list = [] \<rparr>"

definition stats_step :: "e2e_row \<Rightarrow> dir_stats \<Rightarrow> dir_stats" where
  "stats_step r s =
     \<lparr> st_count = st_count s + 1,
       st_bytes = st_bytes s + bytes r,
       st_cpu_wall = st_cpu_wall s + cpu_wall_ns r,
       st_gpu_dma = st_gpu_dma s + gpu_dma_ns r,
       st_launch_oh = st_launch_oh s + max 0 (launch_overhead_ns r),
       st_sync_wait = st_sync_wait s + max 0 (sync_wait_ns r),
       st_e2e_list = st_e2e_list s @ [e2e_of r],
       st_bw_list =
         (if gpu_dma_ns r > 0 \<and> bytes r > 0
          then st_bw_list s @ [of_int (bytes r) / (of_int (gpu_dma_ns r) / 10 ^ 9) / 10 ^ 9]
          else st_bw_list s) \<rparr>"

definition direction_stats :: "e2e_row list \<Rightarrow> (string \<times> dir_stats) list" where
  "direction_stats rows =
     fold (\<lambda>r acc. dd_update (COPY_KIND (copyKind r)) stats0 (stats_step r) acc) rows []"

text \<open>
  One printed line of the direction table (lines 112-122); the durations are kept in
  nanoseconds (the report prints them \<open>/ 1e6\<close>). \<open>d_bw\<close> is
  \<open>sum(bw_list) / len(bw_list) if bw_list else 0\<close>.
\<close>

record dir_line =
  d_kind :: string
  d_count :: nat
  d_bytes :: int
  d_cpu_wall :: int
  d_gpu_dma :: int
  d_launch_oh :: int
  d_sync_wait :: int
  d_bw :: rat

definition mean_bw :: "rat list \<Rightarrow> rat" where
  "mean_bw bws = (if bws = [] then 0 else sum_list bws / of_nat (length bws))"

definition dir_line_of :: "string \<Rightarrow> dir_stats \<Rightarrow> dir_line" where
  "dir_line_of kind s =
     \<lparr> d_kind = kind, d_count = st_count s, d_bytes = st_bytes s,
       d_cpu_wall = st_cpu_wall s, d_gpu_dma = st_gpu_dma s,
       d_launch_oh = st_launch_oh s, d_sync_wait = st_sync_wait s,
       d_bw = mean_bw (st_bw_list s) \<rparr>"

definition direction_table :: "e2e_row list \<Rightarrow> dir_line list" where
  "direction_table rows =
     (let stats = direction_stats rows in
      concat (map (\<lambda>kind. case map_of stats kind of
                             None \<Rightarrow> []
                           | Some s \<Rightarrow> if st_count s = 0 then [] else [dir_line_of kind s])
        [''HtoD'', ''DtoH'', ''DtoD'', ''Peer'', ''HtoH'', ''Unknown'']))"

text \<open>
  The top transfers (lines 125-143): \<open>sorted(rows, key=e2e, reverse=True)[:15]\<close>; a
  reversed Python sort keeps rows of one key in their order.
\<close>

record top_line =
  t_kind :: string
  t_bytes :: int
  t_e2e :: int
  t_cpu_wall :: int
  t_gpu_dma :: int
  t_launch :: int
  t_sync :: int
  t_bw :: rat

definition top_line_of :: "e2e_row \<Rightarrow> top_line" where
  "top_line_of r =
     \<lparr> t_kind = COPY_KIND (copyKind r), t_bytes = bytes r, t_e2e = e2e_of r,
       t_cpu_wall = cpu_wall_ns r, t_gpu_dma = gpu_dma_ns r,
       t_launch = max 0 (launch_overhead_ns r), t_sync = max 0 (sync_wait_ns r),
       t_bw = row_bw (bytes r) (gpu_dma_ns r) \<rparr>"

definition top_transfers :: "e2e_row list \<Rightarrow> top_line list" where
  "top_transfers rows = map top_line_of (take 15 (sort_key (\<lambda>r. - e2e_of r) rows))"

text \<open>
  The memory type breakdown (lines 148-160). The key \<open>f"{sk} \<rightarrow> {dk}"\<close> is kept as the
  pair of the two names. The groups are printed by descending bytes, and
  \<open>ml_bw\<close> is \<open>bytes / (gpu_dma / 1e9) / 1e9 if gpu_dma > 0 else 0\<close>.
\<close>

record mem_stats =
  ms_count :: nat
  ms_bytes :: int
  ms_gpu_dma :: int

definition mem0 :: mem_stats where
  "mem0 = \<lparr> ms_count = 0, ms_bytes = 0, ms_gpu_dma = 0 \<rparr>"

definition mem_step :: "e2e_row \<Rightarrow> mem_stats \<Rightarrow> mem_stats" where
  "mem_step r m =
     \<lparr> ms_count = ms_count m + 1, ms_bytes = ms_bytes m + bytes r,
       ms_gpu_dma = ms_gpu_dma m + gpu_dma_ns r \<rparr>"

definition mem_key :: "e2e_row \<Rightarrow> string \<times> string" where
  "mem_key r = (MEM_KIND (srcKind r), MEM_KIND (dstKind r))"

definition memory_stats :: "e2e_row list \<Rightarrow> ((string \<times> string) \<times> mem_stats) list" where
  "memory_stats rows = fold (\<lambda>r acc. dd_update (mem_key r) mem0 (mem_step r) acc) rows []"

record mem_line =
  ml_key :: "string \<times> string"
  ml_count :: nat
  ml_bytes :: int
  ml_gpu_dma :: int
  ml_bw :: rat

definition mem_line_of :: "(string \<times> string) \<times> mem_stats \<Rightarrow> mem_line" where
  "mem_line_of km =
     \<lparr> ml_key = fst km, ml_count = ms_count (snd km), ml_bytes = ms_bytes (snd km),
       ml_gpu_dma = ms_gpu_dma (snd km),
       ml_bw = (if ms_gpu_dma (snd km) > 0
                then of_int (ms_bytes (snd km)) / (of_int (ms_gpu_dma (snd km)) / 10 ^ 9) / 10 ^ 9
                else 0) \<rparr>"

definition memory_table :: "e2e_row list \<Rightarrow> mem_line list" where
  "memory_table rows =
     map mem_line_of (sort_key (\<lambda>km. - ms_bytes (snd km)) (memory_stats rows))"

text \<open>
  \<open>analyze\<close>: \<open>TypeError\<close> when a window bound meets a NULL origin, the message
  "No memcpy events found." when the query is empty, the report otherwise. \<open>csv\<close> is
  the export, written when a path is given.
\<close>

datatype report =
  NoEvents
| Report (n_events: nat) (by_direction: "dir_line list") (top: "top_line list")
    (by_memory: "mem_line list") (csv: "csv_row list option")

definition analyze :: "trace_db \<Rightarrow> int option \<Rightarrow> int option \<Rightarrow> bool \<Rightarrow> error + report" where
  "analyze d start_off end_off csv_path =
     (case analyze_where (trace_origin d) start_off end_off of
        Inl e \<Rightarrow> Inl e
      | Inr wh \<Rightarrow>
          (let rows = e2e_query d wh in
           if rows = [] then Inr NoEvents
           else Inr (Report (length rows) (direction_table rows) (top_transfers rows)
                       (memory_table rows)
                       (if csv_path then Some (map csv_of rows) else None))))"

section \<open>The joined rows of \<open>dump_window_csv\<close>\<close>

text \<open>Python's \<open>str\<close> of an integer, used as the fallback name of an unknown kind.\<close>

fun digits_of :: "nat \<Rightarrow> string" where
  "digits_of n =
     (if n < 10 then [char_of (48 + n)]
      else digits_of (n div 10) @ [char_of (48 + n mod 10)])"

declare digits_of.simps [simp del]

definition str_int :: "int \<Rightarrow> string" where
  "str_int i = (if i < 0 then CHR ''-'' # digits_of (nat (- i)) else digits_of (nat i))"

definition COPY_KIND_str :: "int \<Rightarrow> string" where
  "COPY_KIND_str k = (if k \<in> {0, 1, 2, 3, 4, 8} then COPY_KIND k else str_int k)"

definition MEM_KIND_str :: "int \<Rightarrow> string" where
  "MEM_KIND_str k = (if k \<in> {0, 1, 2, 3, 4, 5} then MEM_KIND k else str_int k)"

text \<open>
  One row of \<open>memcpy_e2e_<tag>.csv\<close> (\<open>dump_window_csv.main\<close>, lines 169-193), with
  the times in milliseconds from the origin as the script computes them
  (\<open>(x - t0) / 1e6\<close>, \<open>x / 1e6\<close>); the columns \<open>size_human\<close> and \<open>op_type\<close>, a
  rendering of \<open>size_bytes\<close> and a constant, are left out.
\<close>

record window_row =
  w_cpu_start_ms :: rat
  w_cpu_end_ms :: rat
  w_cpu_wall_ms :: rat
  w_gpu_start_ms :: rat
  w_gpu_end_ms :: rat
  w_gpu_dma_ms :: rat
  w_launch_overhead_ms :: rat
  w_e2e_ms :: rat
  w_size_bytes :: int
  w_src_mem :: string
  w_dst_mem :: string
  w_device_id :: int
  w_stream_id :: int
  w_dma_bw_gbps :: rat
  w_direction :: string
  w_api_name :: string

definition window_row_of :: "int \<Rightarrow> e2e_row \<Rightarrow> window_row" where
  "window_row_of t0 r =
     (let cpu_wall = cpu_end r - cpu_start r;
          gpu_dma = gpu_end r - gpu_start r;
          launch_oh = max 0 (gpu_start r - cpu_start r);
          e2e = max cpu_wall (gpu_end r - cpu_start r);
          bw = row_bw (bytes r) gpu_dma
      in \<lparr> w_cpu_start_ms = of_int (cpu_start r - t0) / 10 ^ 6,
           w_cpu_end_ms = of_int (cpu_end r - t0) / 10 ^ 6,
           w_cpu_wall_ms = of_int cpu_wall / 10 ^ 6,
           w_gpu_start_ms = of_int (gpu_start r - t0) / 10 ^ 6,
           w_gpu_end_ms = of_int (gpu_end r - t0) / 10 ^ 6,
           w_gpu_dma_ms = of_int gpu_dma / 10 ^ 6,
           w_launch_overhead_ms = of_int launch_oh / 10 ^ 6,
           w_e2e_ms = of_int e2e / 10 ^ 6,
           w_size_bytes = bytes r,
           w_src_mem = MEM_KIND_str (srcKind r),
           w_dst_mem = MEM_KIND_str (dstKind r),
           w_device_id = deviceId r, w_stream_id = streamId r,
           w_dma_bw_gbps = bw,
           w_direction = COPY_KIND_str (copyKind r),
           w_api_name = (case api_name r of None \<Rightarrow> [] | Some n \<Rightarrow> n) \<rparr>)"

text \<open>
  \<open>MEMCPY_E2E_SQL\<close> (lines 43-55) is the join of \<open>E2E_QUERY\<close> under
  \<open>WHERE m.end >= lo AND m.start <= hi\<close>; \<open>lo\<close> and \<open>hi\<close> are \<open>t0 + int(t * 1e6)\<close>
  (lines 89-90), a \<open>TypeError\<close> on a NULL origin.
\<close>

definition dump_window_e2e :: "trace_db \<Rightarrow> int \<Rightarrow> int \<Rightarrow> error + window_row list" where
  "dump_window_e2e d t1_off t2_off =
     (case trace_origin d of
        None \<Rightarrow> Inl TypeError
      | Some t0 \<Rightarrow>
          (let lo = t0 + t1_off; hi = t0 + t2_off in
           Inr (map (window_row_of t0)
                  (e2e_query d (\<lambda>m. lo \<le> m_end m \<and> m_start m \<le> hi)))))"


section \<open>Example traces\<close>

text \<open>
  The scenario of the specification: compute events \<open>[0,10)\<close> and \<open>[50,60)\<close> on
  stream 1, a transfer \<open>[20,30)\<close> on it, correlated with an API call \<open>[15,35)\<close>.
\<close>

definition scenario_db :: trace_db where
  "scenario_db =
     \<lparr> kernel_tab =
         [\<lparr> k_start = 0, k_end = 10, k_deviceId = 0, k_streamId = 1, k_demangledName = 1 \<rparr>,
          \<lparr> k_start = 50, k_end = 60, k_deviceId = 0, k_streamId = 1, k_demangledName = 2 \<rparr>],
       memcpy_tab =
         [\<lparr> m_start = 20, m_end = 30, m_bytes = 4096, m_copyKind = 1, m_srcKind = 1,
            m_dstKind = 2, m_deviceId = 0, m_streamId = 1, m_correlationId = 7 \<rparr>],
       runtime_tab = [\<lparr> r_start = 15, r_end = 35, r_correlationId = 7, r_nameId = 3 \<rparr>],
       string_tab =
         [\<lparr> s_id = 1, s_value = ''gemm'' \<rparr>, \<lparr> s_id = 2, s_value = ''relu'' \<rparr>,
          \<lparr> s_id = 3, s_value = ''cudaMemcpyAsync'' \<rparr>] \<rparr>"




text \<open>A transfer whose correlation id (99) no API call of the scenario carries.\<close>

definition orphan_memcpy :: memcpy_row where
  "orphan_memcpy =
     \<lparr> m_start = 40, m_end = 45, m_bytes = 512, m_copyKind = 2, m_srcKind = 2,
       m_dstKind = 1, m_deviceId = 0, m_streamId = 1, m_correlationId = 99 \<rparr>"

definition orphan_db :: trace_db where
  "orphan_db = scenario_db \<lparr> memcpy_tab := memcpy_tab scenario_db @ [orphan_memcpy] \<rparr>"

definition scenario_e2e_row :: e2e_row where
  "scenario_e2e_row =
     \<lparr> cpu_start = 15, cpu_end = 35, cpu_wall_ns = 20, gpu_start = 20, gpu_end = 30,
       gpu_dma_ns = 10, launch_overhead_ns = 5, sync_wait_ns = 5, bytes = 4096,
       copyKind = 1, srcKind = 1, dstKind = 2, deviceId = 0, streamId = 1,
       correlationId = 7, api_name = Some ''cudaMemcpyAsync'' \<rparr>"







section \<open>Kernel and memcpy pairs (\<open>dump_kernel_memcpy_pairs\<close>)\<close>

text \<open>
  \<open>short_name\<close> (lines 30-35): the text before the first \<open><\<close> and the first \<open>(\<close>, then
  its last two \<open>::\<close>-separated parts. \<open>split_colons\<close> is \<open>name.split("::")\<close>.
\<close>

fun split_colons :: "string \<Rightarrow> string list" where
  "split_colons [] = [[]]"
| "split_colons (c # cs) =
     (if c = CHR '':'' \<and> (case cs of [] \<Rightarrow> False | c' # _ \<Rightarrow> c' = CHR '':'')
      then [] # split_colons (tl cs)
      else (case split_colons cs of [] \<Rightarrow> [[c]] | p # ps \<Rightarrow> (c # p) # ps))"

definition short_name :: "string option \<Rightarrow> string" where
  "short_name demangled =
     (case demangled of
        None \<Rightarrow> ''unknown''
      | Some [] \<Rightarrow> ''unknown''
      | Some dn \<Rightarrow>
          (let name = takeWhile (\<lambda>c. c \<noteq> CHR ''('') (takeWhile (\<lambda>c. c \<noteq> CHR ''<'') dn);
               parts = split_colons name
           in if length parts > 1
              then parts ! (length parts - 2) @ ''::'' @ parts ! (length parts - 1)
              else last parts))"

text \<open>
  An entry of the merged timeline (lines 76-96): a dictionary of type \<open>"kernel"\<close> or
  of type \<open>"memcpy"\<close>.
\<close>

datatype event =
    Kernel (ev_start: int) (ev_end: int) (ev_stream: int) (ev_name: string)
      (ev_full_name: string)
  | Memcpy (ev_start: int) (ev_end: int) (ev_stream: int) (ev_bytes: int)
      (ev_copyKind: int) (ev_srcKind: int) (ev_dstKind: int)

fun is_memcpy :: "event \<Rightarrow> bool" where
  "is_memcpy (Memcpy a b s n ck sk dk) = True"
| "is_memcpy (Kernel a b s n f) = False"

text \<open>\<open>events[j]["type"] == "kernel" and events[j]["stream"] == stream\<close>.\<close>

fun is_kernel_on :: "int \<Rightarrow> event \<Rightarrow> bool" where
  "is_kernel_on stream (Kernel a b s n f) = (s = stream)"
| "is_kernel_on stream (Memcpy a b s n ck sk dk) = False"

text \<open>
  The two queries (lines 54-67), each under \<open>WHERE end >= lo AND start <= hi\<close> and
  ordered by start, and the timeline: the kernels, then the memcpys, sorted by start
  with Python's stable sort (lines 76-97).
\<close>

definition kernel_events :: "trace_db \<Rightarrow> int \<Rightarrow> int \<Rightarrow> event list" where
  "kernel_events d lo hi =
     sort_key ev_start
       (concat (map (\<lambda>k. map (\<lambda>n. Kernel (k_start k) (k_end k) (k_streamId k) (short_name n)
                                    (case n of None \<Rightarrow> [] | Some f \<Rightarrow> f))
                           (left_join_name (string_tab d) (k_demangledName k)))
          (filter (\<lambda>k. lo \<le> k_end k \<and> k_start k \<le> hi) (kernel_tab d))))"

definition memcpy_events :: "trace_db \<Rightarrow> int \<Rightarrow> int \<Rightarrow> event list" where
  "memcpy_events d lo hi =
     sort_key ev_start
       (map (\<lambda>m. Memcpy (m_start m) (m_end m) (m_streamId m) (m_bytes m) (m_copyKind m)
                   (m_srcKind m) (m_dstKind m))
          (filter (\<lambda>m. lo \<le> m_end m \<and> m_start m \<le> hi) (memcpy_tab d)))"

definition timeline :: "event list \<Rightarrow> event list \<Rightarrow> event list" where
  "timeline kernels memcpys = sort_key ev_start (kernels @ memcpys)"

text \<open>
  The two scans of the loop (lines 121-133), from \<open>i - 1\<close> down to 0 and from \<open>i + 1\<close>
  up, each stopping at the first kernel of the stream.
\<close>

definition prev_kernel :: "event list \<Rightarrow> nat \<Rightarrow> event option" where
  "prev_kernel events i = find (is_kernel_on (ev_stream (events ! i))) (rev (take i events))"

definition next_kernel :: "event list \<Rightarrow> nat \<Rightarrow> event option" where
  "next_kernel events i = find (is_kernel_on (ev_stream (events ! i))) (drop (Suc i) events)"

text \<open>
  The loop (lines 115-133): one entry per memcpy of the timeline, in its order, with the
  two kernels found; other entries of the timeline are skipped.
\<close>

definition paired :: "event list \<Rightarrow> (event \<times> event option \<times> event option) list" where
  "paired events =
     concat (map (\<lambda>i. if is_memcpy (events ! i)
                       then [(events ! i, prev_kernel events i, next_kernel events i)]
                       else [])
       [0 ..< length events])"

text \<open>
  The CSV row of an entry (lines 135-157); an empty cell is \<open>None\<close>, the column
  \<open>size_human\<close> is left out.
\<close>

record pair_row =
  p_memcpy_start_ms :: rat
  p_memcpy_end_ms :: rat
  p_memcpy_dur_ms :: rat
  p_size_bytes :: int
  p_direction :: string
  p_src_mem :: string
  p_dst_mem :: string
  p_gap_before_ms :: "rat option"
  p_gap_after_ms :: "rat option"
  p_stream_id :: int
  p_dma_bw_gbps :: rat
  p_prev_kernel_name :: string
  p_prev_kernel_end_ms :: "rat option"
  p_next_kernel_name :: string
  p_next_kernel_start_ms :: "rat option"

definition pair_row_of :: "int \<Rightarrow> event \<times> event option \<times> event option \<Rightarrow> pair_row" where
  "pair_row_of t0 entry =
     (case entry of (ev, prev, nxt) \<Rightarrow>
        (let dur_ns = ev_end ev - ev_start ev;
             bw = row_bw (ev_bytes ev) dur_ns;
             gap_before = (case prev of None \<Rightarrow> None
                           | Some k \<Rightarrow> Some (of_int (ev_start ev - ev_end k) / 10 ^ 6));
             gap_after = (case nxt of None \<Rightarrow> None
                          | Some k \<Rightarrow> Some (of_int (ev_start k - ev_end ev) / 10 ^ 6))
         in \<lparr> p_memcpy_start_ms = of_int (ev_start ev - t0) / 10 ^ 6,
              p_memcpy_end_ms = of_int (ev_end ev - t0) / 10 ^ 6,
              p_memcpy_dur_ms = of_int dur_ns / 10 ^ 6,
              p_size_bytes = ev_bytes ev,
              p_direction = COPY_KIND (ev_copyKind ev),
              p_src_mem = MEM_KIND (ev_srcKind ev),
              p_dst_mem = MEM_KIND (ev_dstKind ev),
              p_gap_before_ms = gap_before,
              p_gap_after_ms = gap_after,
              p_stream_id = ev_stream ev,
              p_dma_bw_gbps = bw,
              p_prev_kernel_name = (case prev of None \<Rightarrow> [] | Some k \<Rightarrow> ev_name k),
              p_prev_kernel_end_ms =
                (case prev of None \<Rightarrow> None | Some k \<Rightarrow> Some (of_int (ev_end k - t0) / 10 ^ 6)),
              p_next_kernel_name = (case nxt of None \<Rightarrow> [] | Some k \<Rightarrow> ev_name k),
              p_next_kernel_start_ms =
                (case nxt of None \<Rightarrow> None | Some k \<Rightarrow> Some (of_int (ev_start k - t0) / 10 ^ 6)) \<rparr>))"

text \<open>
  \<open>main\<close>: the origin is the minimum kernel start with no fallback (line 49), so a trace
  without kernels raises \<open>TypeError\<close> at line 50; a window without memcpys prints a
  message and writes nothing (\<open>None\<close>, lines 71-73).
\<close>

definition dump_pairs :: "trace_db \<Rightarrow> int \<Rightarrow> int \<Rightarrow> error + pair_row list option" where
  "dump_pairs d t1_off t2_off =
     (case sql_min (map k_start (kernel_tab d)) of
        None \<Rightarrow> Inl TypeError
      | Some t0 \<Rightarrow>
          (let lo = t0 + t1_off; hi = t0 + t2_off;
               kernels = kernel_events d lo hi;
               memcpys = memcpy_events d lo hi
           in if memcpys = [] then Inr None
              else Inr (Some (map (pair_row_of t0) (paired (timeline kernels memcpys))))))"

text \<open>The timeline of the scenario over the window \<open>[0, 100]\<close>.\<close>

definition scenario_timeline :: "event list" where
  "scenario_timeline =
     timeline (kernel_events scenario_db 0 100) (memcpy_events scenario_db 0 100)"

text \<open>
  A timeline with two transfers of stream 1, \<open>[20,30)\<close> and \<open>[35,40)\<close>, between two
  kernels of stream 1, \<open>[0,10)\<close> and \<open>[50,60)\<close>, and a kernel of stream 2 between the
  transfers.
\<close>

definition burst_timeline :: "event list" where
  "burst_timeline =
     [Kernel 0 10 1 ''gemm'' ''gemm'', Memcpy 20 30 1 4096 1 1 2,
      Kernel 32 34 2 ''copy'' ''copy'', Memcpy 35 40 1 512 2 2 1,
      Kernel 50 60 1 ''relu'' ''relu'']"


section \<open>Binning (\<open>plot_nsys_trace.bin_events\<close>)\<close>

text \<open>
  A row of the DataFrame built by \<open>load_events\<close> (lines 116-149): times in
  milliseconds from the origin, the float columns as the rationals they hold.
\<close>

record trace_event =
  event_type :: string
  op_name :: string
  full_name :: string
  start_ms :: rat
  end_ms :: rat
  duration_ms :: rat
  stream_id :: int
  device_id :: int
  df_bytes :: int
  detail :: string

text \<open>
  Binary64 arithmetic. \<open>ilog2 a\<close> is the exponent \<open>e\<close> of a positive rational,
  \<open>2^e \<le> a < 2^(e+1)\<close>, found by halving (\<open>lg_up\<close>, for \<open>a \<ge> 1\<close>) or doubling
  (\<open>lg_down\<close>, for \<open>a < 1\<close>).
\<close>

function lg_up :: "rat \<Rightarrow> nat" where
  "lg_up a = (if a < 2 then 0 else Suc (lg_up (a / 2)))"
  by pat_completeness auto
termination
proof (relation "measure (\<lambda>a. nat \<lfloor>a\<rfloor>)")
  show "wf (measure (\<lambda>a::rat. nat \<lfloor>a\<rfloor>))" by simp
next
  fix a :: rat assume "\<not> a < 2"
  then have "a / 2 \<le> a - 1" by simp
  then have "\<lfloor>a / 2\<rfloor> \<le> \<lfloor>a - 1\<rfloor>" by (rule floor_mono)
  also have "\<dots> = \<lfloor>a\<rfloor> - 1" by simp
  finally have "\<lfloor>a / 2\<rfloor> < \<lfloor>a\<rfloor>" by simp
  moreover have "0 < \<lfloor>a\<rfloor>" using \<open>\<not> a < 2\<close> by simp
  ultimately show "(a / 2, a) \<in> measure (\<lambda>a. nat \<lfloor>a\<rfloor>)" by simp
qed

function lg_down :: "rat \<Rightarrow> nat" where
  "lg_down a = (if 1 \<le> a \<or> a \<le> 0 then 0 else Suc (lg_down (a * 2)))"
  by pat_completeness auto
termination
proof (relation "measure (\<lambda>a. nat \<lfloor>1 / a\<rfloor>)")
  show "wf (measure (\<lambda>a::rat. nat \<lfloor>1 / a\<rfloor>))" by simp
next
  fix a :: rat assume "\<not> (1 \<le> a \<or> a \<le> 0)"
  then have a: "0 < a" "a < 1" by simp_all
  define x where "x = 1 / a"
  have x: "1 \<le> x" unfolding x_def using a by simp
  have h: "1 / (a * 2) = x / 2" unfolding x_def by simp
  have "\<lfloor>x / 2\<rfloor> < \<lfloor>x\<rfloor>"
  proof (cases "x < 2")
    case True
    then have "x / 2 < 1" by simp
    then have "\<lfloor>x / 2\<rfloor> < 1" by (simp add: floor_less_iff)
    moreover have "1 \<le> \<lfloor>x\<rfloor>" using x by (simp add: le_floor_iff)
    ultimately show ?thesis by linarith
  next
    case False
    then have "x / 2 \<le> x - 1" by simp
    then have "\<lfloor>x / 2\<rfloor> \<le> \<lfloor>x - 1\<rfloor>" by (rule floor_mono)
    also have "\<dots> = \<lfloor>x\<rfloor> - 1" by simp
    finally show ?thesis by simp
  qed
  moreover have "0 < \<lfloor>x\<rfloor>" using x by simp
  ultimately have "nat \<lfloor>x / 2\<rfloor> < nat \<lfloor>x\<rfloor>" by simp
  then show "(a * 2, a) \<in> measure (\<lambda>a. nat \<lfloor>1 / a\<rfloor>)"
    unfolding in_measure h x_def [symmetric] .
qed

declare lg_up.simps [simp del] lg_down.simps [simp del]

definition ilog2 :: "rat \<Rightarrow> int" where
  "ilog2 a = (if 1 \<le> a then int (lg_up a) else - int (lg_down a))"

definition pow2 :: "int \<Rightarrow> rat" where
  "pow2 k = (if 0 \<le> k then 2 ^ nat k else 1 / 2 ^ nat (- k))"

text \<open>Rounding to the nearest integer, a tie to the even one.\<close>

definition round_half_even :: "rat \<Rightarrow> int" where
  "round_half_even x =
     (let f = \<lfloor>x\<rfloor>; d = x - of_int f
      in if d < 1 / 2 then f else if 1 / 2 < d then f + 1 else if even f then f else f + 1)"

text \<open>
  Rounding to binary64, to nearest with ties to even: a value of exponent \<open>e\<close> is
  rounded to a multiple of \<open>2^(e-52)\<close> (53 significant bits), and to a multiple of
  \<open>2^(-1074)\<close> below the normal range. A result of magnitude \<open>2^1024\<close> or more stands
  for an infinity.
\<close>

definition round_double :: "rat \<Rightarrow> rat" where
  "round_double q =
     (if q = 0 then 0
      else (let a = \<bar>q\<bar>;
                p = max (ilog2 a - 52) (- 1074);
                m = round_half_even (a / pow2 p)
            in sgn q * of_int m * pow2 p))"

text \<open>
  The quotient of two binary64 values, correctly rounded as IEEE 754 division is; it is
  finite when the divisor is not zero and the rounded quotient is below \<open>2^1024\<close>.
\<close>

definition float_div :: "rat \<Rightarrow> rat \<Rightarrow> rat" where
  "float_div x y = round_double (x / y)"



text \<open>
  \<open>.astype(int)\<close> on a float column truncates toward zero (the target is int64: the
  quotients are taken below \<open>2^63\<close> in magnitude, where the cast is defined).
\<close>

definition trunc_int :: "rat \<Rightarrow> int" where
  "trunc_int q = (if 0 \<le> q then \<lfloor>q\<rfloor> else \<lceil>q\<rceil>)"

text \<open>
  \<open>kernels["bin"] = (kernels["start_ms"] / bin_ms).astype(int)\<close> (line 181): the
  binary64 quotient of the two floats, truncated.
\<close>

definition bin_of :: "rat \<Rightarrow> trace_event \<Rightarrow> int" where
  "bin_of bin_ms k = trunc_int (float_div (start_ms k) bin_ms)"

definition group_key :: "rat \<Rightarrow> trace_event \<Rightarrow> int \<times> int" where
  "group_key bin_ms k = (stream_id k, bin_of bin_ms k)"

text \<open>
  \<open>groupby(["stream_id", "bin"])\<close> (line 183): the distinct keys in ascending order
  (pandas sorts the group keys), and the rows of one key in their order in the frame.
\<close>

definition group_keys :: "rat \<Rightarrow> trace_event list \<Rightarrow> (int \<times> int) list" where
  "group_keys bin_ms kernels = sort (remdups (map (group_key bin_ms) kernels))"

definition group_members :: "rat \<Rightarrow> trace_event list \<Rightarrow> int \<times> int \<Rightarrow> trace_event list" where
  "group_members bin_ms kernels key = filter (\<lambda>k. group_key bin_ms k = key) kernels"

text \<open>
  Modelled from the spec: \<open>s.value_counts().index[0]\<close> (line 188) is computed inside
  pandas, which is not part of the repository; which of several most frequent labels
  comes first is decided there. The specification (sections 3 and 4.3) gives the
  representative label as the most frequent label, ties broken by first-seen order:
  scanning the labels in order, a label replaces the best so far only when it is
  strictly more frequent. A group is never empty.
\<close>

definition top_label :: "string list \<Rightarrow> string" where
  "top_label ls =
     (case ls of
        [] \<Rightarrow> []
      | l # rest \<Rightarrow>
          fold (\<lambda>x best. if count_list ls best < count_list ls x then x else best) rest l)"

text \<open>
  One row of \<open>agg\<close> (lines 183-197): the aggregates of a group, the derived
  \<open>duration_ms\<close> and the derived \<open>op_name\<close>. The remaining columns are constants
  (\<open>event_type = "kernel_bin"\<close>, \<open>bytes = 0\<close>), a copy (\<open>full_name = op_name\<close>) and a
  rendering of \<open>count\<close> and \<open>total_dur\<close> (\<open>detail\<close>).
\<close>

record bin =
  b_stream_id :: int
  b_bin :: int
  b_count :: nat
  b_start_ms :: rat
  b_end_ms :: rat
  b_total_dur :: rat
  b_top_kernel :: string
  b_device_id :: int
  b_duration_ms :: rat
  b_op_name :: string

definition agg_group :: "rat \<Rightarrow> trace_event list \<Rightarrow> int \<times> int \<Rightarrow> bin" where
  "agg_group bin_ms kernels key =
     (let g = group_members bin_ms kernels key;
          count = length g;
          first_start = Min (set (map start_ms g));
          last_end = Max (set (map end_ms g));
          top_kernel = top_label (map op_name g)
      in \<lparr> b_stream_id = fst key, b_bin = snd key, b_count = count,
           b_start_ms = first_start, b_end_ms = last_end,
           b_total_dur = sum_list (map duration_ms g),
           b_top_kernel = top_kernel,
           b_device_id = device_id (hd g),
           b_duration_ms = last_end - first_start,
           b_op_name = (if count > 1
                        then top_kernel @ '' (+'' @ str_int (int count - 1) @ '')''
                        else top_kernel) \<rparr>)"

definition agg :: "trace_event list \<Rightarrow> rat \<Rightarrow> bin list" where
  "agg kernels bin_ms = map (agg_group bin_ms kernels) (group_keys bin_ms kernels)"



definition kernels_of :: "trace_event list \<Rightarrow> trace_event list" where
  "kernels_of df = filter (\<lambda>r. event_type r = ''kernel'') df"


text \<open>A list of labels has one label strictly more frequent than every other.\<close>

definition unique_mode :: "string list \<Rightarrow> bool" where
  "unique_mode ls = (\<exists>m \<in> set ls. \<forall>x \<in> set ls. x \<noteq> m \<longrightarrow> count_list ls x < count_list ls m)"

text \<open>
  The scenario of the specification: two kernels on stream 2, \<open>[5,12)\<close> and \<open>[8,18)\<close>,
  with different labels; the same frame with its rows exchanged.
\<close>

definition kernel_a :: trace_event where
  "kernel_a =
     \<lparr> event_type = ''kernel'', op_name = ''gemm'', full_name = ''gemm'', start_ms = 5,
       end_ms = 12, duration_ms = 7, stream_id = 2, device_id = 0, df_bytes = 0,
       detail = [] \<rparr>"

definition kernel_b :: trace_event where
  "kernel_b =
     \<lparr> event_type = ''kernel'', op_name = ''relu'', full_name = ''relu'', start_ms = 8,
       end_ms = 18, duration_ms = 10, stream_id = 2, device_id = 0, df_bytes = 0,
       detail = [] \<rparr>"

definition tied_df :: "trace_event list" where
  "tied_df = [kernel_a, kernel_b]"

definition tied_df_shuffled :: "trace_event list" where
  "tied_df_shuffled = [kernel_b, kernel_a]"

text \<open>Three kernels of one bin, two of them with the label of \<open>kernel_b\<close>.\<close>

definition majority_df :: "trace_event list" where
  "majority_df = [kernel_a, kernel_b, kernel_b \<lparr> start_ms := 9, end_ms := 10, duration_ms := 1 \<rparr>]"

definition majority_df_shuffled :: "trace_event list" where
  "majority_df_shuffled = [kernel_b \<lparr> start_ms := 9, end_ms := 10, duration_ms := 1 \<rparr>, kernel_b, kernel_a]"



text \<open>A trace with one transfer, \<open>[20,30)\<close> with its API call, and no kernel.\<close>

definition copy_only_db :: trace_db where
  "copy_only_db =
     \<lparr> kernel_tab = [],
       memcpy_tab =
         [\<lparr> m_start = 20, m_end = 30, m_bytes = 4096, m_copyKind = 1, m_srcKind = 1,
            m_dstKind = 2, m_deviceId = 0, m_streamId = 1, m_correlationId = 7 \<rparr>],
       runtime_tab = [\<lparr> r_start = 15, r_end = 35, r_correlationId = 7, r_nameId = 3 \<rparr>],
       string_tab = [\<lparr> s_id = 3, s_value = ''cudaMemcpyAsync'' \<rparr>] \<rparr>"

section \<open>Properties of the correlator\<close>

lemma set_e2e_query:
  "set (e2e_query d wh) = (\<Union>m \<in> {m \<in> set (memcpy_tab d). wh m}. set (join_memcpy d m))"
  by (auto simp: e2e_query_def)

lemma join_memcpy_rows:
  assumes "x \<in> set (join_memcpy d m)"
  shows "\<exists>r n. r \<in> set (runtime_tab d) \<and> m_correlationId m = r_correlationId r
           \<and> x = mk_e2e_row m r n"
  using assms by (auto simp: join_memcpy_def)

lemma e2e_query_rows:
  assumes "x \<in> set (e2e_query d wh)"
  shows "\<exists>m r n. m \<in> set (memcpy_tab d) \<and> r \<in> set (runtime_tab d) \<and> wh m
           \<and> m_correlationId m = r_correlationId r \<and> x = mk_e2e_row m r n"
  using assms join_memcpy_rows unfolding set_e2e_query by fastforce













subsection \<open>Transfers without an API call\<close>

lemma join_memcpy_unmatched:
  assumes "m_correlationId m \<notin> r_correlationId ` set (runtime_tab d)"
  shows "join_memcpy d m = []"
proof -
  have "filter (\<lambda>r. m_correlationId m = r_correlationId r) (runtime_tab d) = []"
    using assms by (auto simp: filter_empty_conv)
  then show ?thesis by (simp add: join_memcpy_def)
qed

lemma join_memcpy_tab_indep: "join_memcpy (d\<lparr>memcpy_tab := t\<rparr>) = join_memcpy d"
  by (rule ext) (simp add: join_memcpy_def)

lemma e2e_query_unmatched:
  assumes "m_correlationId m \<notin> r_correlationId ` set (runtime_tab d)"
  shows "e2e_query (d\<lparr>memcpy_tab := xs @ m # ys\<rparr>) = e2e_query (d\<lparr>memcpy_tab := xs @ ys\<rparr>)"
  using join_memcpy_unmatched [OF assms]
  by (intro ext) (simp add: e2e_query_def join_memcpy_tab_indep)

lemma analyze_same_rows:
  assumes "trace_origin d' = trace_origin d \<or> (so = None \<and> eo = None)"
    and "e2e_query d' = e2e_query d"
  shows "analyze d' so eo cp = analyze d so eo cp"
proof -
  have "analyze_where (trace_origin d') so eo = analyze_where (trace_origin d) so eo"
    using assms(1)
  proof
    assume "trace_origin d' = trace_origin d"
    then show ?thesis by simp
  next
    assume "so = None \<and> eo = None"
    then show ?thesis by (simp add: analyze_where_def)
  qed
  then show ?thesis unfolding analyze_def assms(2) by simp
qed

lemma dump_same_rows:
  assumes "trace_origin d' = trace_origin d"
    and "e2e_query d' = e2e_query d"
  shows "dump_window_e2e d' a b = dump_window_e2e d a b"
  unfolding dump_window_e2e_def assms ..

lemma no_row_of_unmatched:
  assumes "cid \<notin> r_correlationId ` set (runtime_tab d)"
    and "x \<in> set (e2e_query d wh)"
  shows "correlationId x \<noteq> cid"
proof -
  obtain m r n where "r \<in> set (runtime_tab d)" "m_correlationId m = r_correlationId r"
      "x = mk_e2e_row m r n"
    using e2e_query_rows [OF assms(2)] by blast
  then show ?thesis using assms(1) by (auto simp: mk_e2e_row_def)
qed

lemma trace_origin_kernels:
  assumes "kernel_tab d \<noteq> []"
  shows "trace_origin (d\<lparr>memcpy_tab := t\<rparr>) = trace_origin d"
  using assms by (cases "kernel_tab d") (simp_all add: trace_origin_def sql_min_def)

text \<open>
  Claim C2, as amended. Let a transfer \<open>m\<close> carry a correlation id that no API call
  has, and compare the trace with \<open>m\<close> in its memcpy table (\<open>xs @ m # ys\<close>) to the
  trace without it (\<open>xs @ ys\<close>). No joined row belongs to \<open>m\<close>, and the joined rows,
  with all their computed fields, are the same lists under every window predicate.
  \<open>analyze\<close> and the joined dump of \<open>dump_window_csv\<close> return what they return
  without \<open>m\<close>, an error only where they raise one without it, provided the trace
  origin is the same, which it is when the trace has a kernel (\<open>analyze\<close> without
  a window needs no proviso). The scripts keep no count of such transfers.
\<close>

theorem unmatched_transfer_dropped:
  assumes "m_correlationId m \<notin> r_correlationId ` set (runtime_tab d)"
  shows "(x \<in> set (e2e_query (d\<lparr>memcpy_tab := xs @ m # ys\<rparr>) wh) \<longrightarrow>
            correlationId x \<noteq> m_correlationId m)
       \<and> e2e_query (d\<lparr>memcpy_tab := xs @ m # ys\<rparr>) wh = e2e_query (d\<lparr>memcpy_tab := xs @ ys\<rparr>) wh
       \<and> analyze (d\<lparr>memcpy_tab := xs @ m # ys\<rparr>) None None cp
           = analyze (d\<lparr>memcpy_tab := xs @ ys\<rparr>) None None cp
       \<and> (trace_origin (d\<lparr>memcpy_tab := xs @ m # ys\<rparr>) = trace_origin (d\<lparr>memcpy_tab := xs @ ys\<rparr>) \<longrightarrow>
            analyze (d\<lparr>memcpy_tab := xs @ m # ys\<rparr>) so eo cp
              = analyze (d\<lparr>memcpy_tab := xs @ ys\<rparr>) so eo cp
          \<and> dump_window_e2e (d\<lparr>memcpy_tab := xs @ m # ys\<rparr>) t1_off t2_off
              = dump_window_e2e (d\<lparr>memcpy_tab := xs @ ys\<rparr>) t1_off t2_off)
       \<and> (kernel_tab d \<noteq> [] \<longrightarrow>
            trace_origin (d\<lparr>memcpy_tab := xs @ m # ys\<rparr>) = trace_origin (d\<lparr>memcpy_tab := xs @ ys\<rparr>))"
proof -
  let ?d1 = "d\<lparr>memcpy_tab := xs @ m # ys\<rparr>" and ?d0 = "d\<lparr>memcpy_tab := xs @ ys\<rparr>"
  have q: "e2e_query ?d1 = e2e_query ?d0"
    by (rule e2e_query_unmatched [OF assms])
  have "m_correlationId m \<notin> r_correlationId ` set (runtime_tab ?d1)"
    using assms by simp
  then have a: "x \<in> set (e2e_query ?d1 wh) \<longrightarrow> correlationId x \<noteq> m_correlationId m"
    using no_row_of_unmatched by blast
  have b: "analyze ?d1 None None cp = analyze ?d0 None None cp"
    by (rule analyze_same_rows [OF _ q]) simp
  have c: "trace_origin ?d1 = trace_origin ?d0 \<longrightarrow>
             analyze ?d1 so eo cp = analyze ?d0 so eo cp
           \<and> dump_window_e2e ?d1 t1_off t2_off = dump_window_e2e ?d0 t1_off t2_off"
    using analyze_same_rows [OF _ q] dump_same_rows [OF _ q] by blast
  have e: "kernel_tab d \<noteq> [] \<longrightarrow> trace_origin ?d1 = trace_origin ?d0"
    by (simp add: trace_origin_kernels)
  from a q b c e show ?thesis by simp
qed

lemma scenario_rows: "e2e_query scenario_db (\<lambda>m. True) = [scenario_e2e_row]"
  by code_simp

theorem unmatched_transfer_dropped_witness:
  "m_correlationId orphan_memcpy \<notin> r_correlationId ` set (runtime_tab scenario_db)
 \<and> scenario_e2e_row \<in> set (e2e_query orphan_db (\<lambda>m. True))
 \<and> correlationId scenario_e2e_row \<noteq> m_correlationId orphan_memcpy
 \<and> kernel_tab scenario_db \<noteq> []
 \<and> trace_origin orphan_db = trace_origin scenario_db
 \<and> analyze orphan_db (Some 0) (Some 100) True = analyze scenario_db (Some 0) (Some 100) True
 \<and> dump_window_e2e orphan_db 0 100 = dump_window_e2e scenario_db 0 100"
proof -
  have h: "m_correlationId orphan_memcpy \<notin> r_correlationId ` set (runtime_tab scenario_db)"
    by (simp add: orphan_memcpy_def scenario_db_def)
  have d1: "scenario_db\<lparr>memcpy_tab := memcpy_tab scenario_db @ orphan_memcpy # []\<rparr> = orphan_db"
    by (simp add: orphan_db_def)
  have d0: "scenario_db\<lparr>memcpy_tab := memcpy_tab scenario_db @ []\<rparr> = scenario_db"
    by simp
  have k: "kernel_tab scenario_db \<noteq> []"
    by (simp add: scenario_db_def)
  show ?thesis
    using unmatched_transfer_dropped [OF h, of scenario_e2e_row "memcpy_tab scenario_db" "[]"
            "\<lambda>m. True" True "Some 0" "Some 100" 0 100] h k
    unfolding d1 d0
    by (simp add: scenario_rows)
qed

theorem unmatched_transfer_not_counted:
  "analyze orphan_db None None True = analyze scenario_db None None True
 \<and> dump_window_e2e orphan_db 0 100 = dump_window_e2e scenario_db 0 100"
  by code_simp

section \<open>Properties of the trace origin\<close>

lemma sql_min_Min: "sql_min xs = (if xs = [] then None else Some (Min (set xs)))"
proof (cases xs)
  case Nil
  then show ?thesis by (simp add: sql_min_def)
next
  case (Cons x ys)
  have "fold min ys x = Min (set (x # ys))" by (rule Min.set_eq_fold [symmetric])
  with Cons show ?thesis by (simp add: sql_min_def)
qed




section \<open>Properties of the rollups\<close>

lemma map_of_dd_update:
  "map_of (dd_update k d f kvs) =
     (map_of kvs)(k \<mapsto> f (case map_of kvs k of None \<Rightarrow> d | Some v \<Rightarrow> v))"
  by (induction kvs) (auto simp: fun_eq_iff)

lemma map_of_group_fold:
  "map_of (fold (\<lambda>r acc. dd_update (key r) d (step r) acc) rows acc0) k =
     (case map_of acc0 k of
        None \<Rightarrow> (if filter (\<lambda>r. key r = k) rows = [] then None
                 else Some (fold step (filter (\<lambda>r. key r = k) rows) d))
      | Some v \<Rightarrow> Some (fold step (filter (\<lambda>r. key r = k) rows) v))"
proof (induction rows arbitrary: acc0)
  case Nil
  then show ?case by (simp split: option.splits)
next
  case (Cons r rows)
  show ?case
    by (simp add: Cons.IH map_of_dd_update split: option.splits)
qed

lemma fold_stats_step:
  "fold stats_step g s =
     \<lparr> st_count = st_count s + length g,
       st_bytes = st_bytes s + sum_list (map bytes g),
       st_cpu_wall = st_cpu_wall s + sum_list (map cpu_wall_ns g),
       st_gpu_dma = st_gpu_dma s + sum_list (map gpu_dma_ns g),
       st_launch_oh = st_launch_oh s + sum_list (map (\<lambda>r. max 0 (launch_overhead_ns r)) g),
       st_sync_wait = st_sync_wait s + sum_list (map (\<lambda>r. max 0 (sync_wait_ns r)) g),
       st_e2e_list = st_e2e_list s @ map e2e_of g,
       st_bw_list = st_bw_list s @
          map (\<lambda>r. of_int (bytes r) / (of_int (gpu_dma_ns r) / 10 ^ 9) / 10 ^ 9)
            (filter (\<lambda>r. gpu_dma_ns r > 0 \<and> bytes r > 0) g) \<rparr>"
proof (induction g arbitrary: s)
  case Nil
  show ?case by simp
next
  case (Cons r g)
  show ?case
    by (simp only: fold.simps comp_apply Cons.IH) (simp add: stats_step_def)
qed



lemma direction_stats_lookup:
  "map_of (direction_stats rows) k =
     (if filter (\<lambda>r. COPY_KIND (copyKind r) = k) rows = [] then None
      else Some (fold stats_step (filter (\<lambda>r. COPY_KIND (copyKind r) = k) rows) stats0))"
  unfolding direction_stats_def
  by (simp only: map_of_group_fold [where key = "\<lambda>r. COPY_KIND (copyKind r)"]) simp

lemma direction_table_alt:
  "direction_table rows =
     concat (map (\<lambda>kind. if filter (\<lambda>r. COPY_KIND (copyKind r) = kind) rows = [] then []
                          else [dir_line_of kind
                                 (fold stats_step (filter (\<lambda>r. COPY_KIND (copyKind r) = kind) rows) stats0)])
       [''HtoD'', ''DtoH'', ''DtoD'', ''Peer'', ''HtoH'', ''Unknown''])"
proof -
  have c: "\<And>g. g \<noteq> [] \<Longrightarrow> st_count (fold stats_step g stats0) \<noteq> 0"
    by (simp add: fold_stats_step)
  show ?thesis
    unfolding direction_table_def Let_def direction_stats_lookup
    by (simp add: c)
qed



lemma concat_if_filter:
  "concat (map (\<lambda>k. if P k then [] else [h k]) ks) = map h (filter (\<lambda>k. \<not> P k) ks)"
  by (induction ks) auto

lemma direction_table_map:
  "direction_table rows =
     map (\<lambda>kind. dir_line_of kind
                   (fold stats_step (filter (\<lambda>r. COPY_KIND (copyKind r) = kind) rows) stats0))
       (filter (\<lambda>kind. filter (\<lambda>r. COPY_KIND (copyKind r) = kind) rows \<noteq> [])
          [''HtoD'', ''DtoH'', ''DtoD'', ''Peer'', ''HtoH'', ''Unknown''])"
  unfolding direction_table_alt by (rule concat_if_filter)

lemma d_kind_line: "d_kind (dir_line_of k s) = k"
  by (simp add: dir_line_of_def)

lemma direction_table_kinds:
  "map d_kind (direction_table rows) =
     filter (\<lambda>k. k \<in> (\<lambda>r. COPY_KIND (copyKind r)) ` set rows)
       [''HtoD'', ''DtoH'', ''DtoD'', ''Peer'', ''HtoH'', ''Unknown'']"
proof -
  have e: "\<And>k. (filter (\<lambda>r. COPY_KIND (copyKind r) = k) rows \<noteq> []) = (k \<in> (\<lambda>r. COPY_KIND (copyKind r)) ` set rows)"
    by (auto simp: filter_empty_conv)
  show ?thesis
    unfolding direction_table_map e by (simp only: map_map comp_def d_kind_line map_ident)
qed












lemma analyze_tables:
  assumes "analyze d so eo cp = Inr (Report n ds ts ms c)"
  shows "\<exists>wh. n = length (e2e_query d wh) \<and> ds = direction_table (e2e_query d wh)
            \<and> ms = memory_table (e2e_query d wh)"
  using assms
  by (auto simp: analyze_def Let_def split: sum.splits if_splits)








section \<open>Properties of the pairing\<close>

lemma find_None_nth: "(find P xs = None) = (\<forall>j<length xs. \<not> P (xs ! j))"
  by (auto simp: find_None_iff in_set_conv_nth)

lemma find_Some_nth:
  "find P xs = Some x \<Longrightarrow> \<exists>n<length xs. xs ! n = x \<and> P x \<and> (\<forall>j<n. \<not> P (xs ! j))"
  by (auto simp: find_Some_iff)

lemma prev_kernel_None:
  assumes "i < length events" and "prev_kernel events i = None"
  shows "\<forall>j<i. \<not> is_kernel_on (ev_stream (events ! i)) (events ! j)"
proof (intro allI impI)
  fix j assume "j < i"
  then have "events ! j \<in> set (rev (take i events))"
    using assms(1) by (auto simp: in_set_conv_nth)
  with assms(2) show "\<not> is_kernel_on (ev_stream (events ! i)) (events ! j)"
    unfolding prev_kernel_def find_None_iff by blast
qed

lemma prev_kernel_Some:
  assumes "i < length events" and "prev_kernel events i = Some k"
  shows "\<exists>j<i. events ! j = k \<and> is_kernel_on (ev_stream (events ! i)) k
           \<and> (\<forall>j'. j < j' \<and> j' < i \<longrightarrow> \<not> is_kernel_on (ev_stream (events ! i)) (events ! j'))"
proof -
  let ?P = "is_kernel_on (ev_stream (events ! i))"
  let ?xs = "rev (take i events)"
  have len: "length ?xs = i" using assms(1) by simp
  from find_Some_nth [OF assms(2) [unfolded prev_kernel_def]]
  obtain n where n: "n < i" "?xs ! n = k" "?P k" "\<forall>j<n. \<not> ?P (?xs ! j)"
    using len by auto
  have nth: "\<And>m. m < i \<Longrightarrow> ?xs ! m = events ! (i - Suc m)"
    using assms(1) by (simp add: rev_nth)
  let ?j = "i - Suc n"
  have "?j < i" using n(1) by simp
  moreover have "events ! ?j = k" using nth [OF n(1)] n(2) by simp
  moreover have "\<forall>j'. ?j < j' \<and> j' < i \<longrightarrow> \<not> ?P (events ! j')"
  proof (intro allI impI)
    fix j' assume h: "?j < j' \<and> j' < i"
    then have m: "i - Suc j' < n" "i - Suc j' < i" by auto
    have "?xs ! (i - Suc j') = events ! j'"
      using nth [OF m(2)] h by simp
    with n(4) m(1) show "\<not> ?P (events ! j')" by metis
  qed
  ultimately show ?thesis using n(3) by blast
qed

lemma next_kernel_None:
  assumes "next_kernel events i = None"
  shows "\<forall>j. i < j \<and> j < length events \<longrightarrow> \<not> is_kernel_on (ev_stream (events ! i)) (events ! j)"
proof (intro allI impI)
  fix j assume h: "i < j \<and> j < length events"
  then have "drop (Suc i) events ! (j - Suc i) = events ! j" by simp
  moreover have "j - Suc i < length events - Suc i" using h by linarith
  then have "j - Suc i < length (drop (Suc i) events)" by simp
  ultimately have "events ! j \<in> set (drop (Suc i) events)"
    by (metis nth_mem)
  with assms show "\<not> is_kernel_on (ev_stream (events ! i)) (events ! j)"
    unfolding next_kernel_def find_None_iff by blast
qed

lemma next_kernel_Some:
  assumes "next_kernel events i = Some k"
  shows "\<exists>j. i < j \<and> j < length events \<and> events ! j = k
           \<and> is_kernel_on (ev_stream (events ! i)) k
           \<and> (\<forall>j'. i < j' \<and> j' < j \<longrightarrow> \<not> is_kernel_on (ev_stream (events ! i)) (events ! j'))"
proof -
  let ?P = "is_kernel_on (ev_stream (events ! i))"
  let ?xs = "drop (Suc i) events"
  from find_Some_nth [OF assms [unfolded next_kernel_def]]
  obtain n where n: "n < length ?xs" "?xs ! n = k" "?P k" "\<forall>j<n. \<not> ?P (?xs ! j)"
    by auto
  let ?j = "Suc i + n"
  have jl: "?j < length events" using n(1) by simp
  have "events ! ?j = k" using n(1) n(2) by simp
  moreover have "\<forall>j'. i < j' \<and> j' < ?j \<longrightarrow> \<not> ?P (events ! j')"
  proof (intro allI impI)
    fix j' assume h: "i < j' \<and> j' < ?j"
    then have m: "j' - Suc i < n" by auto
    have "?xs ! (j' - Suc i) = events ! j'" using h jl by simp
    with n(4) m show "\<not> ?P (events ! j')" by metis
  qed
  ultimately show ?thesis using jl n(3) by (intro exI [of _ ?j]) simp
qed


lemma concat_if_map:
  "concat (map (\<lambda>k. if Q k then [h k] else []) ks) = map h (filter Q ks)"
  by (induction ks) auto

lemma paired_map:
  "paired events =
     map (\<lambda>i. (events ! i, prev_kernel events i, next_kernel events i))
       (filter (\<lambda>i. is_memcpy (events ! i)) [0 ..< length events])"
  unfolding paired_def by (rule concat_if_map)

lemma paired_subjects: "map fst (paired events) = filter is_memcpy events"
proof -
  have "map fst (paired events) =
          map (\<lambda>i. events ! i) (filter (\<lambda>i. is_memcpy (events ! i)) [0 ..< length events])"
    unfolding paired_map by simp
  also have "\<dots> = filter is_memcpy (map (\<lambda>i. events ! i) [0 ..< length events])"
    by (simp add: filter_map comp_def)
  also have "\<dots> = filter is_memcpy events"
    by (simp add: map_nth)
  finally show ?thesis .
qed

lemma paired_mem:
  assumes "i < length events" and "is_memcpy (events ! i)"
  shows "(events ! i, prev_kernel events i, next_kernel events i) \<in> set (paired events)"
  unfolding paired_map using assms by auto

lemma paired_entry:
  assumes "(e, p, n) \<in> set (paired events)"
  shows "\<exists>i<length events. is_memcpy (events ! i) \<and> e = events ! i
           \<and> p = prev_kernel events i \<and> n = next_kernel events i"
  using assms unfolding paired_map by auto

lemma timeline_sorted:
  "sorted (map ev_start (timeline kernels memcpys))
 \<and> mset (timeline kernels memcpys) = mset kernels + mset memcpys"
  by (simp add: timeline_def)

lemma dump_pairs_rows:
  assumes "dump_pairs d t1_off t2_off = Inr (Some rows)"
  shows "\<exists>t0. sql_min (map k_start (kernel_tab d)) = Some t0
           \<and> rows = map (pair_row_of t0)
                      (paired (timeline (kernel_events d (t0 + t1_off) (t0 + t2_off))
                                 (memcpy_events d (t0 + t1_off) (t0 + t2_off))))"
  using assms
  by (auto simp: dump_pairs_def Let_def split: option.splits if_splits)

lemma gap_fields:
  "p_gap_before_ms (pair_row_of t0 (ev, prev, nxt)) =
     map_option (\<lambda>k. of_int (ev_start ev - ev_end k) / 10 ^ 6) prev"
  "p_gap_after_ms (pair_row_of t0 (ev, prev, nxt)) =
     map_option (\<lambda>k. of_int (ev_start k - ev_end ev) / 10 ^ 6) nxt"
  by (simp_all add: pair_row_of_def Let_def split: option.splits)

text \<open>
  Let position \<open>i\<close> of a timeline hold a transfer. Its entry is in the output of the
  loop, which has one entry per transfer in timeline order. The previous kernel
  reported is the kernel of the transfer's stream at the greatest position before
  \<open>i\<close>, the next kernel the one at the least position after \<open>i\<close>; where there is no
  such kernel the side is empty. The gaps written are
  \<open>transfer.start - prev.end\<close> and \<open>next.start - transfer.end\<close>, in milliseconds
  (\<open>/ 1e6\<close>), empty with their kernel. The timeline holds the kernels and memcpys of the
  window in ascending order of start.
\<close>

lemma paired_nearest_kernels:
  assumes "i < length events" and "is_memcpy (events ! i)"
  shows "(events ! i, prev_kernel events i, next_kernel events i) \<in> set (paired events)
   \<and> map fst (paired events) = filter is_memcpy events
   \<and> (case prev_kernel events i of
        None \<Rightarrow> \<forall>j<i. \<not> is_kernel_on (ev_stream (events ! i)) (events ! j)
      | Some k \<Rightarrow>
          \<exists>j<i. events ! j = k \<and> is_kernel_on (ev_stream (events ! i)) k
            \<and> (\<forall>j'. j < j' \<and> j' < i \<longrightarrow> \<not> is_kernel_on (ev_stream (events ! i)) (events ! j')))
   \<and> (case next_kernel events i of
        None \<Rightarrow> \<forall>j. i < j \<and> j < length events \<longrightarrow>
                  \<not> is_kernel_on (ev_stream (events ! i)) (events ! j)
      | Some k \<Rightarrow>
          \<exists>j. i < j \<and> j < length events \<and> events ! j = k
            \<and> is_kernel_on (ev_stream (events ! i)) k
            \<and> (\<forall>j'. i < j' \<and> j' < j \<longrightarrow> \<not> is_kernel_on (ev_stream (events ! i)) (events ! j')))
   \<and> p_gap_before_ms (pair_row_of t0 (events ! i, prev_kernel events i, next_kernel events i)) =
       map_option (\<lambda>k. of_int (ev_start (events ! i) - ev_end k) / 10 ^ 6) (prev_kernel events i)
   \<and> p_gap_after_ms (pair_row_of t0 (events ! i, prev_kernel events i, next_kernel events i)) =
       map_option (\<lambda>k. of_int (ev_start k - ev_end (events ! i)) / 10 ^ 6) (next_kernel events i)
   \<and> sorted (map ev_start (timeline kernels memcpys))
   \<and> mset (timeline kernels memcpys) = mset kernels + mset memcpys"
proof -
  have p: "case prev_kernel events i of
        None \<Rightarrow> \<forall>j<i. \<not> is_kernel_on (ev_stream (events ! i)) (events ! j)
      | Some k \<Rightarrow>
          \<exists>j<i. events ! j = k \<and> is_kernel_on (ev_stream (events ! i)) k
            \<and> (\<forall>j'. j < j' \<and> j' < i \<longrightarrow> \<not> is_kernel_on (ev_stream (events ! i)) (events ! j'))"
    using prev_kernel_None [OF assms(1)] prev_kernel_Some [OF assms(1)]
    by (cases "prev_kernel events i") simp_all
  have n: "case next_kernel events i of
        None \<Rightarrow> \<forall>j. i < j \<and> j < length events \<longrightarrow>
                  \<not> is_kernel_on (ev_stream (events ! i)) (events ! j)
      | Some k \<Rightarrow>
          \<exists>j. i < j \<and> j < length events \<and> events ! j = k
            \<and> is_kernel_on (ev_stream (events ! i)) k
            \<and> (\<forall>j'. i < j' \<and> j' < j \<longrightarrow> \<not> is_kernel_on (ev_stream (events ! i)) (events ! j'))"
    using next_kernel_None [of events i] next_kernel_Some [of events i]
    by (cases "next_kernel events i") simp_all
  show ?thesis
    using paired_mem [OF assms] paired_subjects [of events] p n
      gap_fields [of t0 "events ! i" "prev_kernel events i" "next_kernel events i"]
      timeline_sorted [of kernels memcpys]
    by (intro conjI) blast+
qed

lemma scenario_timeline_eval:
  "scenario_timeline =
     [Kernel 0 10 1 ''gemm'' ''gemm'', Memcpy 20 30 1 4096 1 1 2,
      Kernel 50 60 1 ''relu'' ''relu'']"
  by code_simp

lemma scenario_pairs_eval:
  "prev_kernel scenario_timeline (Suc 0) = Some (Kernel 0 10 1 ''gemm'' ''gemm'')
 \<and> next_kernel scenario_timeline (Suc 0) = Some (Kernel 50 60 1 ''relu'' ''relu'')"
  by code_simp

lemma scenario_nearest_kernels:
  "Suc 0 < length scenario_timeline
 \<and> is_memcpy (scenario_timeline ! Suc 0)
 \<and> prev_kernel scenario_timeline (Suc 0) = Some (Kernel 0 10 1 ''gemm'' ''gemm'')
 \<and> next_kernel scenario_timeline (Suc 0) = Some (Kernel 50 60 1 ''relu'' ''relu'')
 \<and> p_gap_before_ms (pair_row_of 0 (scenario_timeline ! Suc 0,
       prev_kernel scenario_timeline (Suc 0), next_kernel scenario_timeline (Suc 0)))
     = Some (10 / 10 ^ 6)
 \<and> p_gap_after_ms (pair_row_of 0 (scenario_timeline ! Suc 0,
       prev_kernel scenario_timeline (Suc 0), next_kernel scenario_timeline (Suc 0)))
     = Some (20 / 10 ^ 6)"
proof -
  have a: "Suc 0 < length scenario_timeline" by (simp add: scenario_timeline_eval)
  have b: "is_memcpy (scenario_timeline ! Suc 0)" by (simp add: scenario_timeline_eval)
  have c: "ev_start (scenario_timeline ! Suc 0) = 20 \<and> ev_end (scenario_timeline ! Suc 0) = 30"
    by (simp add: scenario_timeline_eval)
  note t = paired_nearest_kernels [OF a b, of 0 "[]" "[]"]
  from t have g1: "p_gap_before_ms (pair_row_of 0 (scenario_timeline ! Suc 0,
       prev_kernel scenario_timeline (Suc 0), next_kernel scenario_timeline (Suc 0)))
     = map_option (\<lambda>k. of_int (ev_start (scenario_timeline ! Suc 0) - ev_end k) / 10 ^ 6)
         (prev_kernel scenario_timeline (Suc 0))"
    by (elim conjE)
  from t have g2: "p_gap_after_ms (pair_row_of 0 (scenario_timeline ! Suc 0,
       prev_kernel scenario_timeline (Suc 0), next_kernel scenario_timeline (Suc 0)))
     = map_option (\<lambda>k. of_int (ev_start k - ev_end (scenario_timeline ! Suc 0)) / 10 ^ 6)
         (next_kernel scenario_timeline (Suc 0))"
    by (elim conjE)
  show ?thesis
    unfolding g1 g2 using a b by (simp add: scenario_pairs_eval c)
qed

lemma dump_pairs_raises:
  "(dump_pairs d t1_off t2_off = Inl TypeError) = (kernel_tab d = [])"
  by (auto simp: dump_pairs_def sql_min_Min Let_def split: option.splits if_splits)

text \<open>
  Claim C4. A transfer with no kernel of its stream on either side has both sides
  empty in the loop of lines 115-133, and the claim has its row written with empty
  gaps, not an error. On the trace with one transfer and no kernel the loop would pair
  the transfer with two empty sides, but \<open>main\<close> does not reach the loop: its origin is
  the minimum kernel start alone (line 49), \<open>None\<close> here, and line 50 raises
  \<open>TypeError\<close>. The origin of \<open>analyze_memcpy\<close> (lines 66-68), \<open>dump_window_csv\<close>
  (lines 85-87) and \<open>plot_nsys_trace\<close> (lines 87-89) falls back to the first transfer,
  20 on this trace.
\<close>

theorem transfer_without_kernels_raises:
  "dump_pairs copy_only_db 0 100 = Inl TypeError
 \<and> trace_origin copy_only_db = Some 20
 \<and> paired (timeline (kernel_events copy_only_db 20 120) (memcpy_events copy_only_db 20 120))
     = [(Memcpy 20 30 1 4096 1 1 2, None, None)]"
  by code_simp

lemma find_no_match: "\<forall>x \<in> set xs. \<not> P x \<Longrightarrow> find P xs = None"
  by (simp add: find_None_iff)

lemma find_skip_prefix: "\<forall>x \<in> set xs. \<not> P x \<Longrightarrow> find P (xs @ ys) = find P ys"
  by (induction xs) simp_all

lemma slice_elems:
  assumes "x \<in> set (drop a (take b xs))"
  shows "\<exists>j. a \<le> j \<and> j < b \<and> j < length xs \<and> x = xs ! j"
proof -
  from assms obtain n where n: "n < length (drop a (take b xs))" "x = drop a (take b xs) ! n"
    by (auto simp: in_set_conv_nth)
  then have l: "a + n < b" "a + n < length xs" by auto
  have "drop a (take b xs) ! n = take b xs ! (a + n)"
    using l by (intro nth_drop) simp
  also have "\<dots> = xs ! (a + n)" using l by simp
  finally have "x = xs ! (a + n)" using n(2) by simp
  with l show ?thesis by (intro exI [of _ "a + n"]) simp
qed

lemma kernel_not_memcpy: "is_memcpy e \<Longrightarrow> \<not> is_kernel_on s e"
  by (cases e) simp_all

lemma adjacent_transfers_same_kernels:
  assumes "i < i'" and "i' < length events"
    and "is_memcpy (events ! i)" and "is_memcpy (events ! i')"
    and "ev_stream (events ! i') = ev_stream (events ! i)"
    and "\<forall>j. i < j \<and> j < i' \<longrightarrow> \<not> is_kernel_on (ev_stream (events ! i)) (events ! j)"
  shows "prev_kernel events i' = prev_kernel events i"
    and "next_kernel events i' = next_kernel events i"
proof -
  let ?P = "is_kernel_on (ev_stream (events ! i))"
  have none: "\<And>j. i \<le> j \<Longrightarrow> j \<le> i' \<Longrightarrow> \<not> ?P (events ! j)"
  proof -
    fix j assume "i \<le> j" "j \<le> i'"
    then consider "j = i" | "j = i'" | "i < j \<and> j < i'" by linarith
    then show "\<not> ?P (events ! j)"
      using assms(3,4,6) kernel_not_memcpy by cases auto
  qed
  have "take i' events = take i (take i' events) @ drop i (take i' events)"
    by (rule append_take_drop_id [symmetric])
  also have "take i (take i' events) = take i events"
    using assms(1) by (simp add: min_def)
  finally have t: "rev (take i' events) = rev (drop i (take i' events)) @ rev (take i events)"
    by (metis rev_append)
  have "\<forall>x \<in> set (rev (drop i (take i' events))). \<not> ?P x"
    using slice_elems [of _ i i' events] none by fastforce
  then show "prev_kernel events i' = prev_kernel events i"
    unfolding prev_kernel_def assms(5) t by (rule find_skip_prefix)
  have "drop (Suc i) events = take (i' - i) (drop (Suc i) events) @ drop (i' - i) (drop (Suc i) events)"
    by (rule append_take_drop_id [symmetric])
  also have "drop (i' - i) (drop (Suc i) events) = drop (Suc i') events"
    using assms(1) by simp
  also have "take (i' - i) (drop (Suc i) events) = drop (Suc i) (take (Suc i') events)"
    using assms(1) by (simp add: drop_take)
  finally have d: "drop (Suc i) events = drop (Suc i) (take (Suc i') events) @ drop (Suc i') events" .
  have "\<forall>x \<in> set (drop (Suc i) (take (Suc i') events)). \<not> ?P x"
    using slice_elems [of _ "Suc i" "Suc i'" events] none by fastforce
  then have "find ?P (drop (Suc i) events) = find ?P (drop (Suc i') events)"
    by (subst d) (rule find_skip_prefix)
  then show "next_kernel events i' = next_kernel events i"
    unfolding next_kernel_def assms(5) by simp
qed

lemma paired_sides:
  assumes "(e, p, n) \<in> set (paired events)"
  shows "is_memcpy e
       \<and> (case p of None \<Rightarrow> True | Some k \<Rightarrow> is_kernel_on (ev_stream e) k \<and> k \<in> set events)
       \<and> (case n of None \<Rightarrow> True | Some k \<Rightarrow> is_kernel_on (ev_stream e) k \<and> k \<in> set events)"
proof -
  from paired_entry [OF assms] obtain i where i: "i < length events" "is_memcpy (events ! i)"
      "e = events ! i" "p = prev_kernel events i" "n = next_kernel events i"
    by blast
  have a: "case p of None \<Rightarrow> True | Some k \<Rightarrow> is_kernel_on (ev_stream e) k \<and> k \<in> set events"
  proof (cases p)
    case None
    then show ?thesis by simp
  next
    case (Some k)
    then have "prev_kernel events i = Some k" using i(4) by simp
    from prev_kernel_Some [OF i(1) this] obtain j where j: "j < i" "events ! j = k"
        "is_kernel_on (ev_stream (events ! i)) k"
      by blast
    then have "k \<in> set events" using i(1) by (metis nth_mem less_trans)
    with j Some show ?thesis by (simp add: i(3))
  qed
  have b: "case n of None \<Rightarrow> True | Some k \<Rightarrow> is_kernel_on (ev_stream e) k \<and> k \<in> set events"
  proof (cases n)
    case None
    then show ?thesis by simp
  next
    case (Some k)
    then have "next_kernel events i = Some k" using i(5) by simp
    from next_kernel_Some [OF this] obtain j where j: "j < length events" "events ! j = k"
        "is_kernel_on (ev_stream (events ! i)) k"
      by blast
    then have "k \<in> set events" by (metis nth_mem)
    with j Some show ?thesis by (simp add: i(3))
  qed
  from i a b show ?thesis by simp
qed


text \<open>
  Claim C5, as amended. Pairing is one-directional: every entry of the output belongs to
  a transfer, and the previous and next events it reports are kernels of the transfer's
  stream in the timeline, so no transfer is ever reported as the previous or next event
  of a kernel. Two transfers of one stream with no kernel of that stream between them
  report the same previous and the same next kernel.
\<close>

theorem pairing_is_one_directional:
  "((e, p, n) \<in> set (paired events) \<longrightarrow>
       is_memcpy e
     \<and> (case p of None \<Rightarrow> True | Some k \<Rightarrow> is_kernel_on (ev_stream e) k \<and> k \<in> set events)
     \<and> (case n of None \<Rightarrow> True | Some k \<Rightarrow> is_kernel_on (ev_stream e) k \<and> k \<in> set events))
 \<and> (i < i' \<and> i' < length events \<and> is_memcpy (events ! i) \<and> is_memcpy (events ! i')
      \<and> ev_stream (events ! i') = ev_stream (events ! i)
      \<and> (\<forall>j. i < j \<and> j < i' \<longrightarrow> \<not> is_kernel_on (ev_stream (events ! i)) (events ! j))
     \<longrightarrow> prev_kernel events i' = prev_kernel events i
       \<and> next_kernel events i' = next_kernel events i)"
  using paired_sides [of e p n events] adjacent_transfers_same_kernels [of i i' events]
  by blast

lemma burst_pairs:
  "paired burst_timeline =
     [(Memcpy 20 30 1 4096 1 1 2, Some (Kernel 0 10 1 ''gemm'' ''gemm''),
         Some (Kernel 50 60 1 ''relu'' ''relu'')),
      (Memcpy 35 40 1 512 2 2 1, Some (Kernel 0 10 1 ''gemm'' ''gemm''),
         Some (Kernel 50 60 1 ''relu'' ''relu''))]"
  by code_simp

lemma burst_scans:
  "prev_kernel burst_timeline (Suc 0) = Some (Kernel 0 10 1 ''gemm'' ''gemm'')
 \<and> prev_kernel burst_timeline (Suc (Suc (Suc 0))) = Some (Kernel 0 10 1 ''gemm'' ''gemm'')
 \<and> next_kernel burst_timeline (Suc 0) = Some (Kernel 50 60 1 ''relu'' ''relu'')
 \<and> next_kernel burst_timeline (Suc (Suc (Suc 0))) = Some (Kernel 50 60 1 ''relu'' ''relu'')"
  by code_simp

theorem pairing_is_one_directional_witness:
  "(Memcpy 20 30 1 4096 1 1 2, Some (Kernel 0 10 1 ''gemm'' ''gemm''),
      Some (Kernel 50 60 1 ''relu'' ''relu'')) \<in> set (paired burst_timeline)
 \<and> Suc 0 < Suc (Suc (Suc 0)) \<and> Suc (Suc (Suc 0)) < length burst_timeline
 \<and> is_memcpy (burst_timeline ! Suc 0) \<and> is_memcpy (burst_timeline ! Suc (Suc (Suc 0)))
 \<and> ev_stream (burst_timeline ! Suc (Suc (Suc 0))) = ev_stream (burst_timeline ! Suc 0)
 \<and> \<not> is_kernel_on (ev_stream (burst_timeline ! Suc 0)) (burst_timeline ! Suc (Suc 0))
 \<and> prev_kernel burst_timeline (Suc (Suc (Suc 0))) = prev_kernel burst_timeline (Suc 0)
 \<and> next_kernel burst_timeline (Suc (Suc (Suc 0))) = next_kernel burst_timeline (Suc 0)"
proof -
  have m: "(Memcpy 20 30 1 4096 1 1 2, Some (Kernel 0 10 1 ''gemm'' ''gemm''),
      Some (Kernel 50 60 1 ''relu'' ''relu'')) \<in> set (paired burst_timeline)"
    by (simp add: burst_pairs)
  have b: "\<And>j. Suc 0 < j \<and> j < Suc (Suc (Suc 0)) \<Longrightarrow> j = Suc (Suc 0)" by arith
  have h: "Suc 0 < Suc (Suc (Suc 0)) \<and> Suc (Suc (Suc 0)) < length burst_timeline
      \<and> is_memcpy (burst_timeline ! Suc 0) \<and> is_memcpy (burst_timeline ! Suc (Suc (Suc 0)))
      \<and> ev_stream (burst_timeline ! Suc (Suc (Suc 0))) = ev_stream (burst_timeline ! Suc 0)
      \<and> \<not> is_kernel_on (ev_stream (burst_timeline ! Suc 0)) (burst_timeline ! Suc (Suc 0))"
    by (simp add: burst_timeline_def)
  then have q: "\<forall>j. Suc 0 < j \<and> j < Suc (Suc (Suc 0)) \<longrightarrow>
                 \<not> is_kernel_on (ev_stream (burst_timeline ! Suc 0)) (burst_timeline ! j)"
    using b by blast
  show ?thesis
    using pairing_is_one_directional [of "Memcpy 20 30 1 4096 1 1 2"
        "Some (Kernel 0 10 1 ''gemm'' ''gemm'')" "Some (Kernel 50 60 1 ''relu'' ''relu'')"
        burst_timeline "Suc 0" "Suc (Suc (Suc 0))"] m h q
    by blast
qed

theorem next_kernel_has_no_entry:
  "paired scenario_timeline =
     [(Memcpy 20 30 1 4096 1 1 2, Some (Kernel 0 10 1 ''gemm'' ''gemm''),
       Some (Kernel 50 60 1 ''relu'' ''relu''))]"
  by code_simp




section \<open>Properties of the binning\<close>

lemma fold_first_max:
  fixes cnt :: "'a \<Rightarrow> nat"
  shows "\<exists>ys zs. b # xs = ys @ fold (\<lambda>x best. if cnt best < cnt x then x else best) xs b # zs
           \<and> (\<forall>y \<in> set ys. cnt y < cnt (fold (\<lambda>x best. if cnt best < cnt x then x else best) xs b))
           \<and> (\<forall>z \<in> set zs. cnt z \<le> cnt (fold (\<lambda>x best. if cnt best < cnt x then x else best) xs b))"
proof (induction xs arbitrary: b)
  case Nil
  show ?case by (intro exI [of _ "[]"]) simp
next
  case (Cons x xs)
  let ?f = "\<lambda>x best. if cnt best < cnt x then x else best"
  show ?case
  proof (cases "cnt b < cnt x")
    case True
    then have r: "fold ?f (x # xs) b = fold ?f xs x" by simp
    from Cons.IH [of x] obtain ys zs where d: "x # xs = ys @ fold ?f xs x # zs"
      and lt: "\<forall>y \<in> set ys. cnt y < cnt (fold ?f xs x)"
      and le: "\<forall>z \<in> set zs. cnt z \<le> cnt (fold ?f xs x)"
      by blast
    have "cnt x \<le> cnt (fold ?f xs x)"
    proof (cases ys)
      case Nil
      from d have "x # xs = fold ?f xs x # zs" unfolding Nil append_Nil .
      then have q: "x = fold ?f xs x" by (rule list.inject [THEN iffD1, THEN conjunct1])
      have "cnt x = cnt (fold ?f xs x)" by (rule arg_cong [OF q])
      then show ?thesis by (rule order_eq_refl)
    next
      case (Cons y ys')
      from d have "x # xs = y # (ys' @ fold ?f xs x # zs)" unfolding Cons append_Cons .
      then have "x = y" by (rule list.inject [THEN iffD1, THEN conjunct1])
      moreover have "y \<in> set ys" unfolding Cons by simp
      ultimately have "x \<in> set ys" by simp
      with lt have "cnt x < cnt (fold ?f xs x)" by (rule bspec)
      then show ?thesis by (rule less_imp_le)
    qed
    with True have "cnt b < cnt (fold ?f xs x)" by simp
    with lt have "\<forall>y \<in> set (b # ys). cnt y < cnt (fold ?f xs x)" by simp
    moreover have "b # x # xs = (b # ys) @ fold ?f xs x # zs" using d by simp
    ultimately show ?thesis unfolding r using le by blast
  next
    case False
    then have r: "fold ?f (x # xs) b = fold ?f xs b" by simp
    from Cons.IH [of b] obtain ys zs where d: "b # xs = ys @ fold ?f xs b # zs"
      and lt: "\<forall>y \<in> set ys. cnt y < cnt (fold ?f xs b)"
      and le: "\<forall>z \<in> set zs. cnt z \<le> cnt (fold ?f xs b)"
      by blast
    show ?thesis
    proof (cases ys)
      case Nil
      from d have "b # xs = fold ?f xs b # zs" unfolding Nil append_Nil .
      then have e0: "b = fold ?f xs b" "xs = zs"
        by (rule list.inject [THEN iffD1, THEN conjunct1], rule list.inject [THEN iffD1, THEN conjunct2])
      have e: "fold ?f xs b = b" "zs = xs"
        by (rule e0(1) [symmetric], rule e0(2) [symmetric])
      have "b # x # xs = [] @ fold ?f xs b # (x # zs)" using e by simp
      moreover have "\<forall>z \<in> set (x # zs). cnt z \<le> cnt (fold ?f xs b)"
        using le False e by auto
      moreover have "\<forall>y \<in> set []. cnt y < cnt (fold ?f xs b)" by simp
      ultimately show ?thesis unfolding r by blast
    next
      case (Cons y ys')
      from d have "b # xs = y # (ys' @ fold ?f xs b # zs)" unfolding Cons append_Cons .
      then have yb0: "b = y" and xs: "xs = ys' @ fold ?f xs b # zs"
        by (rule list.inject [THEN iffD1, THEN conjunct1], rule list.inject [THEN iffD1, THEN conjunct2])
      have yb: "y = b" by (rule yb0 [symmetric])
      have in_ys: "b \<in> set ys" "set ys' \<subseteq> set ys" unfolding Cons yb by auto
      have "cnt b < cnt (fold ?f xs b)" using lt in_ys by blast
      with False have "cnt x < cnt (fold ?f xs b)" by linarith
      with lt in_ys have "\<forall>y \<in> set (b # x # ys'). cnt y < cnt (fold ?f xs b)" by auto
      moreover have "b # x # xs = (b # x # ys') @ fold ?f xs b # zs"
        by (subst xs) simp
      ultimately show ?thesis unfolding r using le by blast
    qed
  qed
qed

lemma top_label_first_max:
  assumes "ls \<noteq> []"
  shows "\<exists>ys zs. ls = ys @ top_label ls # zs
           \<and> (\<forall>y \<in> set ys. count_list ls y < count_list ls (top_label ls))
           \<and> (\<forall>z \<in> set zs. count_list ls z \<le> count_list ls (top_label ls))"
proof -
  from assms obtain l rest where ls: "ls = l # rest" by (cases ls) auto
  have t: "top_label ls = fold (\<lambda>x best. if count_list ls best < count_list ls x then x else best) rest l"
    by (simp add: top_label_def ls)
  show ?thesis
    unfolding t using fold_first_max [of l rest "count_list ls"] ls by simp
qed

lemma top_label_max:
  assumes "ls \<noteq> []"
  shows "top_label ls \<in> set ls" and "\<forall>x \<in> set ls. count_list ls x \<le> count_list ls (top_label ls)"
proof -
  from top_label_first_max [OF assms] obtain ys zs where d: "ls = ys @ top_label ls # zs"
    and lt: "\<forall>y \<in> set ys. count_list ls y < count_list ls (top_label ls)"
    and le: "\<forall>z \<in> set zs. count_list ls z \<le> count_list ls (top_label ls)"
    by blast
  have s: "set ls = set ys \<union> {top_label ls} \<union> set zs"
    by (subst d) auto
  show "top_label ls \<in> set ls" unfolding s by simp
  show "\<forall>x \<in> set ls. count_list ls x \<le> count_list ls (top_label ls)"
    unfolding s using lt le by (auto simp: less_imp_le)
qed



















lemma group_keys_set:
  "distinct (group_keys w ks)" "set (group_keys w ks) = group_key w ` set ks"
  by (simp_all add: group_keys_def)


lemma agg_entry:
  assumes "b \<in> set (agg ks w)"
  shows "(b_stream_id b, b_bin b) \<in> group_key w ` set ks
       \<and> b = agg_group w ks (b_stream_id b, b_bin b)"
proof -
  from assms obtain key where key: "key \<in> set (group_keys w ks)" and b: "b = agg_group w ks key"
    unfolding agg_def by auto
  have "(b_stream_id b, b_bin b) = key" by (simp add: b agg_group_def Let_def)
  with key b show ?thesis by (simp add: group_keys_set)
qed





lemma agg_group_fields:
  "b_count (agg_group w ks key) = length (group_members w ks key)"
  "b_start_ms (agg_group w ks key) = Min (start_ms ` set (group_members w ks key))"
  "b_end_ms (agg_group w ks key) = Max (end_ms ` set (group_members w ks key))"
  "b_total_dur (agg_group w ks key) = sum_list (map duration_ms (group_members w ks key))"
  "b_top_kernel (agg_group w ks key) = top_label (map op_name (group_members w ks key))"
  by (simp_all add: agg_group_def Let_def)










lemma group_keys_perm:
  assumes "mset ks' = mset ks"
  shows "group_keys w ks' = group_keys w ks"
proof -
  have "set ks' = set ks" using assms by (rule mset_eq_setD)
  then have "set (map (group_key w) ks') = set (map (group_key w) ks)" by simp
  then have "sorted_list_of_set (set (map (group_key w) ks'))
             = sorted_list_of_set (set (map (group_key w) ks))" by simp
  then show ?thesis
    unfolding group_keys_def sorted_list_of_set_sort_remdups .
qed

lemma group_members_perm:
  assumes "mset ks' = mset ks"
  shows "mset (group_members w ks' key) = mset (group_members w ks key)"
  unfolding group_members_def mset_filter assms ..

lemma kernels_of_perm: "mset df' = mset df \<Longrightarrow> mset (kernels_of df') = mset (kernels_of df)"
  unfolding kernels_of_def mset_filter by simp

lemma count_list_perm:
  assumes "mset ls' = mset ls"
  shows "count_list ls' x = count_list ls x"
  using assms by (metis count_mset)

lemma top_label_mode:
  assumes "m \<in> set ls" and "\<forall>x \<in> set ls. x \<noteq> m \<longrightarrow> count_list ls x < count_list ls m"
  shows "top_label ls = m"
proof (rule ccontr)
  assume ne: "top_label ls \<noteq> m"
  have nl: "ls \<noteq> []" using assms(1) by auto
  from top_label_max [OF nl] have "top_label ls \<in> set ls"
    and "count_list ls m \<le> count_list ls (top_label ls)"
    using assms(1) by blast+
  moreover have "count_list ls (top_label ls) < count_list ls m"
    using assms(2) \<open>top_label ls \<in> set ls\<close> ne by blast
  ultimately show False by simp
qed

lemma top_label_perm:
  assumes "unique_mode ls" and "mset ls' = mset ls"
  shows "top_label ls' = top_label ls"
proof -
  from assms(1) obtain m where m: "m \<in> set ls"
      "\<forall>x \<in> set ls. x \<noteq> m \<longrightarrow> count_list ls x < count_list ls m"
    unfolding unique_mode_def by blast
  have s: "set ls' = set ls" using assms(2) by (rule mset_eq_setD)
  have c: "\<And>x. count_list ls' x = count_list ls x" using assms(2) by (rule count_list_perm)
  have "top_label ls = m" using m by (rule top_label_mode)
  moreover have "top_label ls' = m"
    by (rule top_label_mode) (simp_all add: s c m)
  ultimately show ?thesis by simp
qed

lemma agg_group_perm:
  assumes "mset ks' = mset ks"
  shows "b_stream_id (agg_group w ks' key) = b_stream_id (agg_group w ks key)"
    and "b_bin (agg_group w ks' key) = b_bin (agg_group w ks key)"
    and "b_count (agg_group w ks' key) = b_count (agg_group w ks key)"
    and "b_start_ms (agg_group w ks' key) = b_start_ms (agg_group w ks key)"
    and "b_end_ms (agg_group w ks' key) = b_end_ms (agg_group w ks key)"
    and "unique_mode (map op_name (group_members w ks key)) \<Longrightarrow>
           b_top_kernel (agg_group w ks' key) = b_top_kernel (agg_group w ks key)"
proof -
  let ?g' = "group_members w ks' key" and ?g = "group_members w ks key"
  have g: "mset ?g' = mset ?g" using assms by (rule group_members_perm)
  have l: "length ?g' = length ?g" using g by (rule mset_eq_length)
  have s: "set ?g' = set ?g" using g by (rule mset_eq_setD)
  show "b_stream_id (agg_group w ks' key) = b_stream_id (agg_group w ks key)"
    and "b_bin (agg_group w ks' key) = b_bin (agg_group w ks key)"
    by (simp_all add: agg_group_def Let_def)
  show "b_count (agg_group w ks' key) = b_count (agg_group w ks key)"
    unfolding agg_group_fields l ..
  show "b_start_ms (agg_group w ks' key) = b_start_ms (agg_group w ks key)"
    unfolding agg_group_fields s ..
  show "b_end_ms (agg_group w ks' key) = b_end_ms (agg_group w ks key)"
    unfolding agg_group_fields s ..
  have ml: "mset (map op_name ?g') = mset (map op_name ?g)"
    using g by (metis mset_map)
  show "unique_mode (map op_name (group_members w ks key)) \<Longrightarrow>
           b_top_kernel (agg_group w ks' key) = b_top_kernel (agg_group w ks key)"
    unfolding agg_group_fields by (rule top_label_perm [OF _ ml])
qed


lemma agg_perm_core:
  assumes "mset ks' = mset ks"
  shows "map (\<lambda>b. (b_stream_id b, b_bin b, b_count b, b_start_ms b, b_end_ms b)) (agg ks' w)
       = map (\<lambda>b. (b_stream_id b, b_bin b, b_count b, b_start_ms b, b_end_ms b)) (agg ks w)"
  unfolding agg_def group_keys_perm [OF assms] map_map comp_def
  by (simp only: agg_group_perm(1-5) [OF assms])

lemma agg_perm_label:
  assumes "mset ks' = mset ks"
    and "b \<in> set (agg ks w)" and "b' \<in> set (agg ks' w)"
    and "b_stream_id b' = b_stream_id b" and "b_bin b' = b_bin b"
    and "unique_mode (map op_name (group_members w ks (b_stream_id b, b_bin b)))"
  shows "b_top_kernel b' = b_top_kernel b"
proof -
  let ?key = "(b_stream_id b, b_bin b)"
  have b: "b = agg_group w ks ?key" using agg_entry [OF assms(2)] by blast
  have "b' = agg_group w ks' (b_stream_id b', b_bin b')" using agg_entry [OF assms(3)] by blast
  then have b': "b' = agg_group w ks' ?key" using assms(4,5) by simp
  have "b_top_kernel (agg_group w ks' ?key) = b_top_kernel (agg_group w ks ?key)"
    using assms(1,6) by (rule agg_group_perm(6))
  then show ?thesis by (subst b', subst b) 
qed

text \<open>
  Claim C7, as amended. Let one frame be a permutation of the other. Under the same bin
  width the two lists of bins agree, position by position, in stream, bin index, count,
  start and end. Two bins of the same key have the same label whenever one label of the
  group is strictly more frequent than every other.
\<close>

theorem binning_order_independent:
  assumes "mset df' = mset df"
  shows "map (\<lambda>b. (b_stream_id b, b_bin b, b_count b, b_start_ms b, b_end_ms b))
           (agg (kernels_of df') w)
       = map (\<lambda>b. (b_stream_id b, b_bin b, b_count b, b_start_ms b, b_end_ms b))
           (agg (kernels_of df) w)
     \<and> (b \<in> set (agg (kernels_of df) w) \<and> b' \<in> set (agg (kernels_of df') w)
        \<and> b_stream_id b' = b_stream_id b \<and> b_bin b' = b_bin b
        \<and> unique_mode (map op_name (group_members w (kernels_of df) (b_stream_id b, b_bin b)))
        \<longrightarrow> b_top_kernel b' = b_top_kernel b)"
  using agg_perm_core [OF kernels_of_perm [OF assms], of w]
    agg_perm_label [OF kernels_of_perm [OF assms], of b w b']
  by blast

lemma majority_aggs:
  "agg (kernels_of majority_df) 10 =
     [\<lparr> b_stream_id = 2, b_bin = 0, b_count = 3, b_start_ms = 5, b_end_ms = 18,
        b_total_dur = 18, b_top_kernel = ''relu'', b_device_id = 0, b_duration_ms = 13,
        b_op_name = ''relu (+2)'' \<rparr>]
 \<and> agg (kernels_of majority_df_shuffled) 10 =
     [\<lparr> b_stream_id = 2, b_bin = 0, b_count = 3, b_start_ms = 5, b_end_ms = 18,
        b_total_dur = 18, b_top_kernel = ''relu'', b_device_id = 0, b_duration_ms = 13,
        b_op_name = ''relu (+2)'' \<rparr>]
 \<and> unique_mode (map op_name (group_members 10 (kernels_of majority_df) (2, 0)))"
  by code_simp

theorem binning_order_independent_witness:
  "mset majority_df_shuffled = mset majority_df
 \<and> hd (agg (kernels_of majority_df) 10) \<in> set (agg (kernels_of majority_df) 10)
 \<and> hd (agg (kernels_of majority_df_shuffled) 10) \<in> set (agg (kernels_of majority_df_shuffled) 10)
 \<and> b_stream_id (hd (agg (kernels_of majority_df) 10)) = 2
 \<and> b_bin (hd (agg (kernels_of majority_df) 10)) = 0
 \<and> unique_mode (map op_name (group_members 10 (kernels_of majority_df) (2, 0)))
 \<and> b_top_kernel (hd (agg (kernels_of majority_df_shuffled) 10))
     = b_top_kernel (hd (agg (kernels_of majority_df) 10))"
proof -
  have p: "mset majority_df_shuffled = mset majority_df"
    by (simp add: majority_df_def majority_df_shuffled_def)
  show ?thesis
    using binning_order_independent [OF p, of 10 "hd (agg (kernels_of majority_df) 10)"
            "hd (agg (kernels_of majority_df_shuffled) 10)"] p
    by (simp add: majority_aggs)
qed

theorem tied_labels_follow_input_order:
  "mset tied_df_shuffled = mset tied_df
 \<and> map b_top_kernel (agg (kernels_of tied_df) 10) = [''gemm'']
 \<and> map b_top_kernel (agg (kernels_of tied_df_shuffled) 10) = [''relu'']"
proof -
  have "mset tied_df_shuffled = mset tied_df"
    by (simp add: tied_df_def tied_df_shuffled_def)
  moreover have "map b_top_kernel (agg (kernels_of tied_df) 10) = [''gemm'']
    \<and> map b_top_kernel (agg (kernels_of tied_df_shuffled) 10) = [''relu'']"
    by code_simp
  ultimately show ?thesis by simp
qed

end
